theory Spec2Isabelle
  imports Main "HOL-Library.AList"
begin

section \<open>The NetworkManager keyfile renderer of cloud-init\<close>

text \<open>
  A shallow embedding of \<^verbatim>\<open>cloudinit/net/network_manager.py\<close>: the class
  \<^verbatim>\<open>NMConnection\<close> (one connection profile, a \<^verbatim>\<open>ConfigParser\<close> with
  case-sensitive option names) and the class \<^verbatim>\<open>Renderer\<close> (the dictionary of
  profiles and the two passes over the interfaces).

  Names follow the source. A leading underscore of a Python method name is dropped
  (\<^verbatim>\<open>_set_default\<close> is \<open>set_default\<close>), and the keys of the input dictionaries
  become record fields prefixed with the dictionary they belong to
  (\<^verbatim>\<open>iface["mtu"]\<close> is \<open>iface_mtu\<close>).
\<close>

subsection \<open>Python's \<^verbatim>\<open>str\<close> on integers\<close>

function str_nat :: "nat \<Rightarrow> string" where
  "str_nat n = (if n < 10 then [''0123456789'' ! n]
                else str_nat (n div 10) @ [''0123456789'' ! (n mod 10)])"
  by pat_completeness auto
termination
  by (relation "measure id") auto

declare str_nat.simps [simp del]

definition str_int :: "int \<Rightarrow> string" where
  "str_int i = (if i < 0 then CHR ''-'' # str_nat (nat (- i)) else str_nat (nat i))"

subsection \<open>The configuration container\<close>

text \<open>
  A \<^verbatim>\<open>ConfigParser\<close> keeps its sections, and the options of each section, in
  insertion order; assigning to a name that exists replaces the value in place. This is
  an association list under \<^const>\<open>AList.update\<close>. Option names are case-sensitive
  (\<^verbatim>\<open>optionxform = str\<close>), the \<^verbatim>\<open>DEFAULT\<close> section stays empty, and the
  values written are taken free of \<^verbatim>\<open>%\<close>, so that interpolation is the identity.
\<close>

type_synonym options = "(string \<times> string) list"
type_synonym config = "(string \<times> options) list"

definition has_section :: "config \<Rightarrow> string \<Rightarrow> bool" where
  "has_section c s = (map_of c s \<noteq> None)"

definition has_option :: "config \<Rightarrow> string \<Rightarrow> string \<Rightarrow> bool" where
  "has_option c s k = (case map_of c s of None \<Rightarrow> False | Some os \<Rightarrow> map_of os k \<noteq> None)"

text \<open>\<^verbatim>\<open>config[s][k]\<close> and \<^verbatim>\<open>config[s].get(k)\<close>; \<open>None\<close> where Python raises
  \<^verbatim>\<open>KeyError\<close> or returns \<^verbatim>\<open>None\<close>.\<close>

definition opt :: "config \<Rightarrow> string \<Rightarrow> string \<Rightarrow> string option" where
  "opt c s k = (case map_of c s of None \<Rightarrow> None | Some os \<Rightarrow> map_of os k)"

text \<open>\<^verbatim>\<open>config[s] = d\<close>: an existing section is cleared and refilled where it stands, a
  new one is appended.\<close>

definition set_section :: "config \<Rightarrow> string \<Rightarrow> options \<Rightarrow> config" where
  "set_section c s d = AList.update s d c"

text \<open>\<^verbatim>\<open>config[s][k] = v\<close>. Python raises \<^verbatim>\<open>KeyError\<close> when the section is missing;
  every call below follows the creation of the section or a test for it, apart from the
  writes to \<^verbatim>\<open>connection\<close>, which \<open>render_interface\<close> and \<open>con_uuid\<close> check
  themselves.\<close>

definition set_option :: "config \<Rightarrow> string \<Rightarrow> string \<Rightarrow> string \<Rightarrow> config" where
  "set_option c s k v =
     (case map_of c s of None \<Rightarrow> c | Some os \<Rightarrow> AList.update s (AList.update k v os) c)"

subsection \<open>Inputs: the network state\<close>

record route =
  route_network :: string
  route_prefix :: int
  route_gateway :: "string option"
  route_mtu :: "int option"

record subnet =
  subnet_type :: string
  subnet_address :: "string option"
  subnet_prefix :: int
  subnet_gateway :: "string option"
  subnet_routes :: "route list"
  subnet_dns_nameservers :: "string list option"
  subnet_dns_search :: "string list option"
  subnet_mtu :: "int option"

text \<open>The value of one of the type-specific keys of an interface
  (\<^verbatim>\<open>bond-mode\<close>, \<^verbatim>\<open>bridge_stp\<close>, \<^verbatim>\<open>vlan_id\<close>, ...).\<close>

datatype prop_value = PNone | PBool bool | PInt int | PStr string

record iface =
  iface_name :: string
  iface_type :: string
  iface_mtu :: "int option"
  iface_mac_address :: "string option"
  iface_wakeonlan :: bool
  iface_bond_master :: "string option"
  iface_vlan_raw_device :: "string option"
  iface_bridge_ports :: "string list"
  iface_subnets :: "subnet list"
  iface_dns :: "(string list \<times> string list) option"
  iface_config_id :: "string option"
  iface_props :: "(string \<times> prop_value) list"

record network_state =
  iter_interfaces :: "iface list"
  dns_nameservers :: "string list"
  dns_searchdomains :: "string list"

text \<open>
  The functions the module imports: the classifiers of \<^verbatim>\<open>cloudinit.net\<close>,
  \<^verbatim>\<open>uuid.uuid5\<close> (as the string of the UUID it returns) and
  \<^verbatim>\<open>subp.target_path\<close>. Their code is not part of the module; the model takes them
  as parameters.
\<close>

record helpers =
  is_ipv6_address :: "string \<Rightarrow> bool"
  is_ipv6_network :: "string \<Rightarrow> bool"
  subnet_is_ipv6 :: "subnet \<Rightarrow> bool"
  uuid5 :: "string \<Rightarrow> string \<Rightarrow> string"
  target_path :: "string option \<Rightarrow> string \<Rightarrow> string"

datatype error = KeyError

subsection \<open>\<^verbatim>\<open>NMConnection\<close>\<close>

definition CI_NM_UUID :: string where
  "CI_NM_UUID = ''a3924cb8-09e0-43e9-890b-77972a800108''"

definition NMConnection :: "helpers \<Rightarrow> string \<Rightarrow> config" where
  "NMConnection h con_id =
     [(''connection'',
        [(''id'', ''cloud-init '' @ con_id),
         (''uuid'', uuid5 h CI_NM_UUID con_id),
         (''autoconnect-priority'', ''120'')]),
      (''user'', [(''org.freedesktop.NetworkManager.origin'', ''cloud-init'')])]"

definition set_default :: "config \<Rightarrow> string \<Rightarrow> string \<Rightarrow> string \<Rightarrow> config" where
  "set_default c section option v =
     (let c1 = (if \<not> has_section c section then set_section c section [] else c)
      in if \<not> has_option c1 section option then set_option c1 section option v else c1)"

definition config_option_is_set :: "config \<Rightarrow> string \<Rightarrow> string \<Rightarrow> bool" where
  "config_option_is_set c section option = (has_section c section \<and> has_option c section option)"

definition get_config_option :: "config \<Rightarrow> string \<Rightarrow> string \<Rightarrow> string option" where
  "get_config_option c section option =
     (if config_option_is_set c section option then opt c section option else None)"

definition change_set_config_option :: "config \<Rightarrow> string \<Rightarrow> string \<Rightarrow> string \<Rightarrow> config" where
  "change_set_config_option c section option v =
     (if config_option_is_set c section option then set_option c section option v else c)"

text \<open>The first loop returns from the method at the first family that fails a test;
  \<open>mayfail_both_false_dhcp\<close> is the condition under which it runs to its end.\<close>

definition mayfail_both_false_dhcp :: "config \<Rightarrow> bool" where
  "mayfail_both_false_dhcp c =
     list_all (\<lambda>family.
        \<not> (get_config_option c family ''may-fail'' \<noteq> Some ''false'')
        \<and> \<not> (get_config_option c family ''method'' \<notin> {Some ''dhcp'', Some ''auto''}))
       [''ipv4'', ''ipv6'']"

definition set_mayfail_true_if_both_false_dhcp :: "config \<Rightarrow> config" where
  "set_mayfail_true_if_both_false_dhcp c =
     (if mayfail_both_false_dhcp c
      then foldl (\<lambda>c family. change_set_config_option c family ''may-fail'' ''true'') c
             [''ipv4'', ''ipv6'']
      else c)"

definition method_map :: "(string \<times> string) list" where
  "method_map =
     [(''static'', ''manual''),
      (''static6'', ''manual''),
      (''dhcp6'', ''auto''),
      (''ipv6_slaac'', ''auto''),
      (''ipv6_dhcpv6-stateless'', ''auto''),
      (''ipv6_dhcpv6-stateful'', ''dhcp''),
      (''dhcp4'', ''auto''),
      (''dhcp'', ''auto'')]"

text \<open>The argument \<open>subnet_ty\<close> (\<^verbatim>\<open>subnet_type\<close> in the source) is \<open>None\<close> for Python's \<^verbatim>\<open>None\<close>; the empty string is falsy
  as well. The pair computed first is the method and the configuration after the
  \<^verbatim>\<open>try\<close> block, whose \<^verbatim>\<open>KeyError\<close> branch forces \<^verbatim>\<open>may-fail\<close>.\<close>

definition set_ip_method :: "config \<Rightarrow> string \<Rightarrow> string option \<Rightarrow> config" where
  "set_ip_method c family subnet_ty =
     (let c1 = set_default c family ''method'' ''disabled'';
          (method, c2) =
            (case subnet_ty of
               None \<Rightarrow> (''disabled'', c1)
             | Some t \<Rightarrow>
                 if t = [] then (''disabled'', c1)
                 else (case map_of method_map t of
                         Some m \<Rightarrow> (m, c1)
                       | None \<Rightarrow> (''auto'', set_option c1 family ''may-fail'' ''true'')))
      in if opt c2 family ''method'' = Some ''dhcp'' then c2
         else if opt c2 family ''method'' = Some ''auto'' \<and> method = ''manual'' then c2
         else
           let c3 = (if subnet_ty \<in> {Some ''ipv6_dhcpv6-stateful'',
                                        Some ''ipv6_dhcpv6-stateless'',
                                        Some ''ipv6_slaac''}
                     then set_default c2 ''ipv4'' ''method'' ''disabled'' else c2);
               c4 = set_option c3 family ''method'' method
           in set_default c4 family ''may-fail'' ''false'')"

text \<open>
  The loop \<^verbatim>\<open>for index in itertools.count(1)\<close> of
  \<^verbatim>\<open>_get_next_numbered_section\<close>, over the options of the section. It ends because
  the decimal numeral of an index determines the index and a section has finitely many
  options.
\<close>

lemma str_nat_not_Nil: "str_nat n \<noteq> []"
  by (subst str_nat.simps) simp

lemma str_nat_inj: "str_nat n = str_nat m \<Longrightarrow> n = m"
proof (induction n arbitrary: m rule: str_nat.induct)
  case (1 n)
  have d: "distinct ''0123456789''" by simp
  have nth_eq: "\<And>i j. i < 10 \<Longrightarrow> j < 10 \<Longrightarrow> ''0123456789'' ! i = ''0123456789'' ! j \<Longrightarrow> i = j"
    using d by (simp add: nth_eq_iff_index_eq)
  show ?case
  proof (cases "n < 10")
    case n: True
    show ?thesis
    proof (cases "m < 10")
      case True
      with n "1.prems" show ?thesis
        by (simp add: str_nat.simps [of n] str_nat.simps [of m] nth_eq)
    next
      case False
      with n "1.prems" show ?thesis
        by (simp add: str_nat.simps [of n] str_nat.simps [of m] str_nat_not_Nil [THEN not_sym])
    qed
  next
    case n: False
    show ?thesis
    proof (cases "m < 10")
      case True
      with n "1.prems" show ?thesis
        by (simp add: str_nat.simps [of n] str_nat.simps [of m] str_nat_not_Nil)
    next
      case False
      with n "1.prems" have e: "str_nat (n div 10) = str_nat (m div 10)"
        and l: "''0123456789'' ! (n mod 10) = ''0123456789'' ! (m mod 10)"
        by (simp_all add: str_nat.simps [of n] str_nat.simps [of m])
      from "1.IH" [OF n e] have "n div 10 = m div 10" .
      moreover from l have "n mod 10 = m mod 10" by (intro nth_eq) simp_all
      ultimately show ?thesis by (metis div_mult_mod_eq)
    qed
  qed
qed

lemma finite_numbered_indices: "finite {j. map_of os (p @ str_nat j) \<noteq> None}"
proof -
  have "{j. map_of os (p @ str_nat j) \<noteq> None} = (\<lambda>j. p @ str_nat j) -` dom (map_of os)"
    by (auto simp: dom_def)
  moreover have "inj (\<lambda>j. p @ str_nat j)"
    by (rule injI) (simp add: str_nat_inj)
  ultimately show ?thesis
    by (simp add: finite_vimageI finite_dom_map_of)
qed

function count_loop :: "options \<Rightarrow> string \<Rightarrow> nat \<Rightarrow> nat" where
  "count_loop os key_prefix index =
     (if \<not> (map_of os (key_prefix @ str_nat index) \<noteq> None) then index
      else count_loop os key_prefix (Suc index))"
  by pat_completeness auto
termination
proof (relation "measure (\<lambda>(os, p, i). card {j. i \<le> j \<and> map_of os (p @ str_nat j) \<noteq> None})")
  show "wf (measure (\<lambda>(os, p, i). card {j. i \<le> j \<and> map_of os (p @ str_nat j) \<noteq> None}))"
    by simp
next
  fix os :: options and key_prefix :: string and index :: nat
  assume "\<not> \<not> map_of os (key_prefix @ str_nat index) \<noteq> None"
  then have here: "map_of os (key_prefix @ str_nat index) \<noteq> None" by simp
  let ?A = "\<lambda>i. {j. i \<le> j \<and> map_of os (key_prefix @ str_nat j) \<noteq> None}"
  have fin: "finite (?A index)"
    using finite_numbered_indices [of os key_prefix] by (rule rev_finite_subset) auto
  have "?A (Suc index) \<subseteq> ?A index" by auto
  moreover have "index \<in> ?A index" using here by simp
  moreover have "index \<notin> ?A (Suc index)" by simp
  ultimately have "?A (Suc index) \<subset> ?A index" by blast
  then have "card (?A (Suc index)) < card (?A index)"
    using fin by (rule psubset_card_mono [rotated])
  then show "((os, key_prefix, Suc index), (os, key_prefix, index))
      \<in> measure (\<lambda>(os, p, i). card {j. i \<le> j \<and> map_of os (p @ str_nat j) \<noteq> None})"
    by simp
qed

declare count_loop.simps [simp del]

text \<open>The method creates the section when it is missing and returns the key; the model
  returns the configuration as well.\<close>

definition get_next_numbered_section :: "config \<Rightarrow> string \<Rightarrow> string \<Rightarrow> config \<times> string" where
  "get_next_numbered_section c section key_prefix =
     (let c1 = (if \<not> has_section c section then set_section c section [] else c);
          os = (case map_of c1 section of None \<Rightarrow> [] | Some os \<Rightarrow> os)
      in (c1, key_prefix @ str_nat (count_loop os key_prefix 1)))"

definition add_numbered :: "config \<Rightarrow> string \<Rightarrow> string \<Rightarrow> string \<Rightarrow> config" where
  "add_numbered c section key_prefix v =
     (case get_next_numbered_section c section key_prefix of
        (c1, key) \<Rightarrow> set_option c1 section key v)"

definition add_route_options :: "config \<Rightarrow> string \<Rightarrow> string \<Rightarrow> string \<Rightarrow> int \<Rightarrow> config" where
  "add_route_options c section route key v =
     (let numbered_key = route @ ''_options'';
          route_options = opt c section numbered_key
      in set_option c section numbered_key
           (case route_options of
              None \<Rightarrow> key @ ''='' @ str_int v
            | Some ro \<Rightarrow>
                if ro \<noteq> [] then ro @ '','' @ key @ ''='' @ str_int v
                else key @ ''='' @ str_int v))"

text \<open>\<^verbatim>\<open>_add_address\<close> is called only for a subnet that has an address.\<close>

definition add_address :: "config \<Rightarrow> string \<Rightarrow> subnet \<Rightarrow> config" where
  "add_address c family subnet =
     (case subnet_address subnet of
        None \<Rightarrow> c
      | Some a \<Rightarrow> add_numbered c family ''address'' (a @ ''/'' @ str_int (subnet_prefix subnet)))"

definition add_route :: "helpers \<Rightarrow> config \<Rightarrow> route \<Rightarrow> config" where
  "add_route h c route =
     (let family = (if is_ipv6_network h (route_network route) then ''ipv6'' else ''ipv4'');
          v = route_network route @ ''/'' @ str_int (route_prefix route);
          v1 = (case route_gateway route of None \<Rightarrow> v | Some g \<Rightarrow> v @ '','' @ g)
      in case get_next_numbered_section c family ''route'' of
           (c1, route_key) \<Rightarrow>
             let c2 = set_option c1 family route_key v1
             in case route_mtu route of
                  None \<Rightarrow> c2
                | Some m \<Rightarrow> add_route_options c2 family route_key ''mtu'' m)"

definition add_nameserver :: "helpers \<Rightarrow> config \<Rightarrow> string \<Rightarrow> config" where
  "add_nameserver h c dns =
     (let family = (if is_ipv6_address h dns then ''ipv6'' else ''ipv4'')
      in if has_section c family \<and> get_config_option c family ''method'' \<noteq> Some ''disabled''
         then let c1 = set_default c family ''dns'' []
              in set_option c1 family ''dns''
                   ((case opt c1 family ''dns'' of None \<Rightarrow> [] | Some d \<Rightarrow> d) @ dns @ '';'')
         else c)"

fun join :: "string \<Rightarrow> string list \<Rightarrow> string" where
  "join sep [] = []"
| "join sep [x] = x"
| "join sep (x # y # ys) = x @ sep @ join sep (y # ys)"

definition add_dns_search :: "config \<Rightarrow> string list \<Rightarrow> config" where
  "add_dns_search c dns_search =
     foldl (\<lambda>c family.
        if has_section c family \<and> get_config_option c family ''method'' \<noteq> Some ''disabled''
        then let c1 = set_default c family ''dns-search'' []
             in set_option c1 family ''dns-search''
                  ((case opt c1 family ''dns-search'' of None \<Rightarrow> [] | Some d \<Rightarrow> d)
                     @ join '';'' dns_search @ '';'')
        else c)
       c [''ipv4'', ''ipv6'']"

definition con_uuid :: "config \<Rightarrow> error + string" where
  "con_uuid c = (case opt c ''connection'' ''uuid'' of None \<Rightarrow> Inl KeyError | Some u \<Rightarrow> Inr u)"

definition valid :: "config \<Rightarrow> bool" where
  "valid c = has_option c ''connection'' ''type''"

definition upper_char :: "char \<Rightarrow> char" where
  "upper_char ch =
     (let n = (of_char ch :: nat) in if 97 \<le> n \<and> n \<le> 122 then char_of (n - 32) else ch)"

definition mac_addr :: "string \<Rightarrow> string" where
  "mac_addr addr = map upper_char (map (\<lambda>ch. if ch = CHR ''-'' then CHR '':'' else ch) addr)"

text \<open>\<^verbatim>\<open>ConfigParser.write\<close> without spaces around the delimiter.\<close>

definition write_value :: "string \<Rightarrow> string" where
  "write_value v = concat (map (\<lambda>ch. if ch = CHR 0x0A then [CHR 0x0A, CHR 0x09] else [ch]) v)"

definition write_section :: "string \<times> options \<Rightarrow> string" where
  "write_section sec =
     ''['' @ fst sec @ '']'' @ [CHR 0x0A]
     @ concat (map (\<lambda>(k, v). k @ ''='' @ write_value v @ [CHR 0x0A]) (snd sec))
     @ [CHR 0x0A]"

definition dump :: "config \<Rightarrow> string" where
  "dump c =
     ''# Generated by cloud-init. Changes will be lost.'' @ [CHR 0x0A, CHR 0x0A]
     @ concat (map write_section c)"

subsection \<open>\<^verbatim>\<open>Renderer\<close>\<close>

text \<open>
  The renderer owns the dictionary \<^verbatim>\<open>connections\<close>. Every profile object is reached
  through exactly one key of it, so the dictionary also serves as the store of the
  profile objects: a profile that another profile's rendering mutates is read from and
  written back to it. The records sent to the module's logger and the calls of
  \<^verbatim>\<open>util.write_file\<close> (path, content, mode) are collected in order.
\<close>

datatype log_record = Warning string "string list"

record state =
  connections :: "(string \<times> config) list"
  logged :: "log_record list"
  written :: "(string \<times> string \<times> nat) list"

definition Renderer :: state where
  "Renderer = \<lparr>connections = [], logged = [], written = []\<rparr>"

definition get_conn :: "(string \<times> config) list \<Rightarrow> string \<Rightarrow> error + config" where
  "get_conn conns con_id = (case map_of conns con_id of None \<Rightarrow> Inl KeyError | Some c \<Rightarrow> Inr c)"

definition con_ref :: "(string \<times> config) list \<Rightarrow> string \<Rightarrow> error + string" where
  "con_ref conns con_id =
     (case map_of conns con_id of Some c \<Rightarrow> con_uuid c | None \<Rightarrow> Inr con_id)"

subsection \<open>\<^verbatim>\<open>NMConnection.render_interface\<close>\<close>

definition type_map :: "(string \<times> string option) list" where
  "type_map =
     [(''physical'', Some ''ethernet''),
      (''vlan'', Some ''vlan''),
      (''bond'', Some ''bond''),
      (''bridge'', Some ''bridge''),
      (''infiniband'', Some ''infiniband''),
      (''loopback'', None)]"

definition prop_map :: "(string \<times> (string \<times> string) list) list" where
  "prop_map =
     [(''bond'',
        [(''mode'', ''bond-mode''),
         (''miimon'', ''bond-miimon''),
         (''xmit_hash_policy'', ''bond-xmit_hash_policy''),
         (''num_grat_arp'', ''bond-num_grat_arp''),
         (''downdelay'', ''bond-downdelay''),
         (''updelay'', ''bond-updelay''),
         (''fail_over_mac'', ''bond-fail_over_mac''),
         (''primary_reselect'', ''bond-primary_reselect''),
         (''primary'', ''bond-primary''),
         (''active_slave'', ''bond-active_slave''),
         (''ad_actor_sys_prio'', ''bond-ad_actor_sys_prio''),
         (''ad_actor_system'', ''bond-ad_actor_system''),
         (''ad_select'', ''bond-ad_select''),
         (''ad_user_port_key'', ''bond-ad_user_port_key''),
         (''all_slaves_active'', ''bond-all_slaves_active''),
         (''arp_all_targets'', ''bond-arp_all_targets''),
         (''arp_interval'', ''bond-arp_interval''),
         (''arp_ip_target'', ''bond-arp_ip_target''),
         (''arp_validate'', ''bond-arp_validate''),
         (''lacp_rate'', ''bond-lacp_rate''),
         (''lp_interval'', ''bond-lp_interval''),
         (''min_links'', ''bond-min_links''),
         (''num_unsol_na'', ''bond-num_unsol_na''),
         (''packets_per_slave'', ''bond-packets_per_slave''),
         (''peer_notif_delay'', ''bond-peer_notif_delay''),
         (''resend_igmp'', ''bond-resend_igmp''),
         (''tlb_dynamic_lb'', ''bond-tlb_dynamic_lb''),
         (''use_carrier'', ''bond-use_carrier'')]),
      (''bridge'',
        [(''stp'', ''bridge_stp''),
         (''priority'', ''bridge_bridgeprio'')]),
      (''vlan'', [(''id'', ''vlan_id'')]),
      (''ethernet'', []),
      (''infiniband'', [])]"

text \<open>"Initialize type and connectivity" and "Add type specific-section". The profile
  under construction is put back into the store before \<open>con_ref\<close> reads the store.\<close>

definition render_connectivity ::
    "(string \<times> config) list \<Rightarrow> string \<Rightarrow> config \<Rightarrow> string \<Rightarrow> iface \<Rightarrow> error + config" where
  "render_connectivity conns self c if_type iface =
     (if \<not> has_section c ''connection'' then Inl KeyError
      else
        let c1 = set_option c ''connection'' ''type'' if_type
        in case iface_bond_master iface of
             None \<Rightarrow> Inr (set_section c1 if_type [])
           | Some m \<Rightarrow>
               let c2 = set_option c1 ''connection'' ''slave-type'' ''bond''
               in case con_ref (AList.update self c2 conns) m of
                    Inl e \<Rightarrow> Inl e
                  | Inr r \<Rightarrow>
                      Inr (set_section (set_option c2 ''connection'' ''master'' r) if_type []))"

text \<open>One turn of the loop over the subnets. The accumulator holds the configuration and
  the local variables \<^verbatim>\<open>found_nameservers\<close>, \<^verbatim>\<open>found_dns_search\<close> and
  \<^verbatim>\<open>ipv4_mtu\<close>.\<close>

definition render_subnet ::
    "helpers \<Rightarrow> config \<times> string list \<times> string list \<times> int option \<Rightarrow> subnet
      \<Rightarrow> config \<times> string list \<times> string list \<times> int option" where
  "render_subnet h acc subnet =
     (case acc of (c, found_nameservers, found_dns_search, ipv4_mtu) \<Rightarrow>
        let family = (if subnet_is_ipv6 h subnet then ''ipv6'' else ''ipv4'');
            c1 = set_ip_method c family (Some (subnet_type subnet));
            c2 = (case subnet_address subnet of
                    None \<Rightarrow> c1 | Some a \<Rightarrow> add_address c1 family subnet);
            c3 = (case subnet_gateway subnet of
                    None \<Rightarrow> c2 | Some g \<Rightarrow> set_option c2 family ''gateway'' g);
            c4 = foldl (add_route h) c3 (subnet_routes subnet)
        in (c4,
            (case subnet_dns_nameservers subnet of
               None \<Rightarrow> found_nameservers | Some l \<Rightarrow> found_nameservers @ l),
            (case subnet_dns_search subnet of
               None \<Rightarrow> found_dns_search | Some l \<Rightarrow> found_dns_search @ l),
            (if family = ''ipv4''
             then (case subnet_mtu subnet of None \<Rightarrow> ipv4_mtu | Some m \<Rightarrow> Some m)
             else ipv4_mtu)))"

text \<open>"Deal with Layer 3 configuration".\<close>

definition render_layer3 ::
    "helpers \<Rightarrow> config \<Rightarrow> string \<Rightarrow> iface \<Rightarrow> config \<times> string list \<times> string list \<times> int option" where
  "render_layer3 h c if_type iface =
     (let c1 = (if if_type = ''bond'' \<and> iface_subnets iface = []
                then foldl (\<lambda>c family. set_ip_method c family None) c [''ipv4'', ''ipv6'']
                else c)
      in foldl (render_subnet h) (c1, [], [], None) (iface_subnets iface))"

text \<open>"Add interface-level DNS" and the fall-back to the global DNS.\<close>

definition found_dns ::
    "iface \<Rightarrow> network_state \<Rightarrow> string list \<Rightarrow> string list \<Rightarrow> string list \<times> string list" where
  "found_dns iface ns found_nameservers found_dns_search =
     (let (n1, s1) =
            (case iface_dns iface of
               None \<Rightarrow> (found_nameservers, found_dns_search)
             | Some (nameservers, search) \<Rightarrow>
                 (found_nameservers @ filter (\<lambda>dns. dns \<notin> set found_nameservers) nameservers,
                  found_dns_search @ filter (\<lambda>s. s \<notin> set found_dns_search) search));
          n2 = (if n1 = [] \<and> dns_nameservers ns \<noteq> [] then dns_nameservers ns else n1);
          s2 = (if s1 = [] \<and> dns_searchdomains ns \<noteq> [] then dns_searchdomains ns else s1)
      in (n2, s2))"

text \<open>"Write out all DNS entries to the connection".\<close>

definition write_dns :: "helpers \<Rightarrow> config \<Rightarrow> string list \<Rightarrow> string list \<Rightarrow> config" where
  "write_dns h c found_nameservers found_dns_search =
     (let c1 = foldl (add_nameserver h) c found_nameservers
      in if found_dns_search \<noteq> [] then add_dns_search c1 found_dns_search else c1)"

definition str_opt_int :: "int option \<Rightarrow> string" where
  "str_opt_int v = (case v of None \<Rightarrow> ''None'' | Some i \<Rightarrow> str_int i)"

text \<open>The resolved MTU and the records logged while resolving it.\<close>

definition resolve_mtu :: "iface \<Rightarrow> int option \<Rightarrow> int option \<times> log_record list" where
  "resolve_mtu iface ipv4_mtu =
     (let device_mtu = iface_mtu iface;
          ipv4_mtu1 = (case ipv4_mtu of None \<Rightarrow> device_mtu | Some m \<Rightarrow> Some m)
      in (ipv4_mtu1,
          if \<not> ipv4_mtu1 = device_mtu
          then [Warning (''Network config: ignoring %s device-level mtu:%s''
                          @ '' because ipv4 subnet-level mtu:%s provided.'')
                  [iface_name iface, str_opt_int device_mtu, str_opt_int ipv4_mtu1]]
          else []))"

text \<open>"Parse type-specific properties".\<close>

definition render_props :: "config \<Rightarrow> string \<Rightarrow> iface \<Rightarrow> config" where
  "render_props c if_type iface =
     foldl (\<lambda>c (nm_prop, key).
        case map_of (iface_props iface) key of
          None \<Rightarrow> c
        | Some PNone \<Rightarrow> c
        | Some (PBool b) \<Rightarrow> set_option c if_type nm_prop (if b then ''true'' else ''false'')
        | Some (PInt i) \<Rightarrow> set_option c if_type nm_prop (str_int i)
        | Some (PStr s) \<Rightarrow> set_option c if_type nm_prop s)
       c (case map_of prop_map if_type of None \<Rightarrow> [] | Some m \<Rightarrow> m)"

text \<open>"These ones need special treatment", one definition for each \<^verbatim>\<open>if\<close>.\<close>

definition render_ethernet :: "config \<Rightarrow> string \<Rightarrow> iface \<Rightarrow> int option \<Rightarrow> config" where
  "render_ethernet c if_type iface ipv4_mtu =
     (if if_type = ''ethernet'' then
        let c1 = (if iface_wakeonlan iface
                  then set_option c ''ethernet'' ''wake-on-lan'' (str_int 0x40) else c);
            c2 = (case ipv4_mtu of
                    None \<Rightarrow> c1 | Some m \<Rightarrow> set_option c1 ''ethernet'' ''mtu'' (str_int m))
        in case iface_mac_address iface of
             None \<Rightarrow> c2
           | Some a \<Rightarrow> set_option c2 ''ethernet'' ''mac-address'' (mac_addr a)
      else c)"

definition render_vlan ::
    "(string \<times> config) list \<Rightarrow> string \<Rightarrow> config \<Rightarrow> string \<Rightarrow> iface \<Rightarrow> error + config" where
  "render_vlan conns self c if_type iface =
     (if if_type = ''vlan'' then
        case iface_vlan_raw_device iface of
          None \<Rightarrow> Inr c
        | Some d \<Rightarrow>
            (case con_ref (AList.update self c conns) d of
               Inl e \<Rightarrow> Inl e
             | Inr r \<Rightarrow> Inr (set_option c ''vlan'' ''parent'' r))
      else Inr c)"

definition render_bond :: "config \<Rightarrow> string \<Rightarrow> int option \<Rightarrow> config" where
  "render_bond c if_type ipv4_mtu =
     (if if_type = ''bond'' then
        case ipv4_mtu of
          None \<Rightarrow> c
        | Some m \<Rightarrow>
            let c1 = (if \<not> has_section c ''ethernet'' then set_section c ''ethernet'' [] else c)
            in set_option c1 ''ethernet'' ''mtu'' (str_int m)
      else c)"

text \<open>The loop over \<^verbatim>\<open>iface["bridge_ports"]\<close>. A port may be the bridge itself, so
  the bridge's own profile is read from the store at each use.\<close>

fun bridge_ports ::
    "string \<Rightarrow> (string \<times> config) list \<Rightarrow> string list \<Rightarrow> error + (string \<times> config) list" where
  "bridge_ports self conns [] = Inr conns"
| "bridge_ports self conns (port # ports) =
     (case get_conn conns port of
        Inl e \<Rightarrow> Inl e
      | Inr p \<Rightarrow>
          let p1 = set_default p ''connection'' ''slave-type'' ''bridge'';
              conns1 = AList.update port p1 conns
          in case get_conn conns1 self of
               Inl e \<Rightarrow> Inl e
             | Inr s \<Rightarrow>
                 (case con_uuid s of
                    Inl e \<Rightarrow> Inl e
                  | Inr u \<Rightarrow>
                      bridge_ports self
                        (AList.update port (set_default p1 ''connection'' ''master'' u) conns1)
                        ports))"

definition render_bridge ::
    "(string \<times> config) list \<Rightarrow> string \<Rightarrow> string \<Rightarrow> iface \<Rightarrow> error + (string \<times> config) list" where
  "render_bridge conns self if_type iface =
     (if if_type = ''bridge'' then
        case bridge_ports self conns (iface_bridge_ports iface) of
          Inl e \<Rightarrow> Inl e
        | Inr conns1 \<Rightarrow>
            (case get_conn conns1 self of
               Inl e \<Rightarrow> Inl e
             | Inr s \<Rightarrow>
                 (case iface_mac_address iface of
                    None \<Rightarrow> Inr conns1
                  | Some a \<Rightarrow>
                      Inr (AList.update self
                             (set_option s ''bridge'' ''mac-address'' (mac_addr a)) conns1)))
      else Inr conns)"

definition render_infiniband :: "config \<Rightarrow> string \<Rightarrow> iface \<Rightarrow> int option \<Rightarrow> config" where
  "render_infiniband c if_type iface ipv4_mtu =
     (if if_type = ''infiniband'' then
        case ipv4_mtu of
          None \<Rightarrow> c
        | Some m \<Rightarrow>
            let c1 = set_option c ''infiniband'' ''transport-mode'' ''datagram'';
                c2 = set_option c1 ''infiniband'' ''mtu'' (str_int m)
            in case iface_mac_address iface of
                 None \<Rightarrow> c2
               | Some a \<Rightarrow> set_option c2 ''infiniband'' ''mac-address'' (mac_addr a)
      else c)"

text \<open>"Finish up".\<close>

definition render_finish :: "config \<Rightarrow> string \<Rightarrow> iface \<Rightarrow> config" where
  "render_finish c if_type iface =
     (if if_type = ''bridge'' \<or> \<not> has_option c if_type ''mac-address''
      then set_option c ''connection'' ''interface-name'' (iface_name iface)
      else c)"

text \<open>
  The method, called as \<^verbatim>\<open>self.connections[conn_key].render_interface(...)\<close>: \<open>self\<close>
  is the key of the profile being rendered. A missing entry of \<^verbatim>\<open>_type_map\<close> raises
  \<^verbatim>\<open>KeyError\<close>; the entry \<^verbatim>\<open>None\<close> returns at once.
\<close>

definition render_interface ::
    "helpers \<Rightarrow> string \<Rightarrow> iface \<Rightarrow> network_state \<Rightarrow> state \<Rightarrow> error + state" where
  "render_interface h self iface ns st =
     (case get_conn (connections st) self of
        Inl e \<Rightarrow> Inl e
      | Inr c0 \<Rightarrow>
     (case map_of type_map (iface_type iface) of
        None \<Rightarrow> Inl KeyError
      | Some None \<Rightarrow> Inr st
      | Some (Some if_type) \<Rightarrow>
     (case render_connectivity (connections st) self c0 if_type iface of
        Inl e \<Rightarrow> Inl e
      | Inr c1 \<Rightarrow>
     (case render_layer3 h c1 if_type iface of
        (c2, found_nameservers, found_dns_search, ipv4_mtu0) \<Rightarrow>
     (case found_dns iface ns found_nameservers found_dns_search of
        (nameservers, search) \<Rightarrow>
     (case resolve_mtu iface ipv4_mtu0 of
        (ipv4_mtu, records) \<Rightarrow>
     (let c3 = write_dns h c2 nameservers search;
          c4 = set_mayfail_true_if_both_false_dhcp c3;
          c5 = render_props c4 if_type iface;
          c6 = render_ethernet c5 if_type iface ipv4_mtu
      in case render_vlan (connections st) self c6 if_type iface of
           Inl e \<Rightarrow> Inl e
         | Inr c7 \<Rightarrow>
             let c8 = render_bond c7 if_type ipv4_mtu
             in case render_bridge (AList.update self c8 (connections st)) self if_type iface of
                  Inl e \<Rightarrow> Inl e
                | Inr conns1 \<Rightarrow>
                    (case get_conn conns1 self of
                       Inl e \<Rightarrow> Inl e
                     | Inr c9 \<Rightarrow>
                         let c10 = render_infiniband c9 if_type iface ipv4_mtu;
                             c11 = render_finish c10 if_type iface
                         in Inr (st\<lparr>connections := AList.update self c11 conns1,
                                    logged := logged st @ records\<rparr>)))))))))"

subsection \<open>\<^verbatim>\<open>Renderer.render_network_state\<close>\<close>

definition NM_RUN_DIR :: string where
  "NM_RUN_DIR = ''/etc/NetworkManager''"

definition NM_IPV6_ADDR_GEN_CONF :: string where
  "NM_IPV6_ADDR_GEN_CONF =
     concat (map (\<lambda>l. l @ [CHR 0x0A])
       [''# This is generated by cloud-init. Do not edit.'',
        ''#'',
        ''[.config]'',
        ''  enable=nm-version-min:1.40'',
        ''[connection.30-cloud-init-ip6-addr-gen-mode]'',
        ''  # Select EUI64 to be used if the profile does not specify it.'',
        ''  ipv6.addr-gen-mode=0'',
        ''''])"

definition nm_conn_filename :: "helpers \<Rightarrow> string \<Rightarrow> string option \<Rightarrow> string" where
  "nm_conn_filename h con_id target =
     target_path h target NM_RUN_DIR @ ''/system-connections/''
       @ ''cloud-init-'' @ con_id @ ''.nmconnection''"

definition cloud_init_nm_conf_filename :: "helpers \<Rightarrow> string option \<Rightarrow> string" where
  "cloud_init_nm_conf_filename h target =
     target_path h target NM_RUN_DIR @ ''/conf.d/'' @ ''30-cloud-init-ip6-addr-gen-mode.conf''"

text \<open>\<^verbatim>\<open>conn_key = iface.get("config_id") or iface["name"]\<close>.\<close>

definition conn_key :: "iface \<Rightarrow> string" where
  "conn_key iface =
     (case iface_config_id iface of
        None \<Rightarrow> iface_name iface
      | Some i \<Rightarrow> if i \<noteq> [] then i else iface_name iface)"

text \<open>The first pass: a profile for every interface.\<close>

definition first_pass :: "helpers \<Rightarrow> (string \<times> config) list \<Rightarrow> iface list \<Rightarrow> (string \<times> config) list" where
  "first_pass h conns ifaces =
     foldl (\<lambda>conns iface.
        AList.update (conn_key iface) (NMConnection h (iface_name iface)) conns) conns ifaces"

text \<open>The second pass: each interface is rendered; an exception ends the pass.\<close>

fun second_pass :: "helpers \<Rightarrow> network_state \<Rightarrow> state \<Rightarrow> iface list \<Rightarrow> error + state" where
  "second_pass h ns st [] = Inr st"
| "second_pass h ns st (iface # ifaces) =
     (case render_interface h (conn_key iface) iface ns st of
        Inl e \<Rightarrow> Inl e
      | Inr st1 \<Rightarrow> second_pass h ns st1 ifaces)"

text \<open>The files written, all with mode \<^verbatim>\<open>0o600\<close> (384): one for every valid profile, then the
  configuration fragment.\<close>

definition write_files :: "helpers \<Rightarrow> string option \<Rightarrow> state \<Rightarrow> state" where
  "write_files h target st =
     st\<lparr>written := written st
          @ map (\<lambda>(con_id, conn). (nm_conn_filename h con_id target, dump conn, 384))
              (filter (\<lambda>(con_id, conn). \<not> \<not> valid conn) (connections st))
          @ [(cloud_init_nm_conf_filename h target, NM_IPV6_ADDR_GEN_CONF, 384)]\<rparr>"

definition render_network_state ::
    "helpers \<Rightarrow> network_state \<Rightarrow> string option \<Rightarrow> state \<Rightarrow> error + state" where
  "render_network_state h ns target st =
     (let st1 = st\<lparr>connections := first_pass h (connections st) (iter_interfaces ns)\<rparr>
      in case second_pass h ns st1 (iter_interfaces ns) of
           Inl e \<Rightarrow> Inl e
         | Inr st2 \<Rightarrow> Inr (write_files h target st2))"

subsection \<open>Stand-ins for the imported functions\<close>

text \<open>
  Used only where the model is evaluated at a concrete input. On the inputs of the
  examples below they classify as cloud-init's functions do: an address or network
  written with a colon is IPv6, a subnet is IPv6 by its type (or, when static, by its
  address). \<open>uuid5\<close> is replaced by a function that keeps its two arguments apart, as a
  hash of them does on the names used here.
\<close>

definition example_helpers :: helpers where
  "example_helpers =
     \<lparr>is_ipv6_address = (\<lambda>a. CHR '':'' \<in> set a),
      is_ipv6_network = (\<lambda>a. CHR '':'' \<in> set a),
      subnet_is_ipv6 = (\<lambda>s.
         subnet_type s \<in> {''static6'', ''dhcp6'', ''ipv6_slaac'',
                            ''ipv6_dhcpv6-stateless'', ''ipv6_dhcpv6-stateful''}
         \<or> (subnet_type s = ''static''
              \<and> (case subnet_address s of None \<Rightarrow> False | Some a \<Rightarrow> CHR '':'' \<in> set a))),
      uuid5 = (\<lambda>namespace name. ''uuid5('' @ namespace @ '','' @ name @ '')''),
      target_path = (\<lambda>target path. (case target of None \<Rightarrow> [] | Some t \<Rightarrow> t) @ path)\<rparr>"

section \<open>Verification\<close>

subsection \<open>Evaluation at concrete inputs\<close>

lemmas config_defs =
  has_section_def has_option_def opt_def set_section_def set_option_def set_default_def
  config_option_is_set_def get_config_option_def change_set_config_option_def

lemmas connection_defs =
  CI_NM_UUID_def NMConnection_def set_ip_method_def method_map_def
  mayfail_both_false_dhcp_def set_mayfail_true_if_both_false_dhcp_def
  get_next_numbered_section_def add_numbered_def add_route_options_def add_address_def
  add_route_def add_nameserver_def add_dns_search_def con_uuid_def valid_def mac_addr_def
  upper_char_def str_int_def str_nat.simps count_loop.simps

lemmas renderer_defs =
  get_conn_def con_ref_def type_map_def prop_map_def render_connectivity_def
  render_subnet_def render_layer3_def found_dns_def write_dns_def resolve_mtu_def
  str_opt_int_def render_props_def render_ethernet_def render_vlan_def render_bond_def
  render_bridge_def render_infiniband_def render_finish_def render_interface_def
  conn_key_def first_pass_def Renderer_def example_helpers_def

lemmas weak_congs =
  let_weak_cong option.case_cong_weak sum.case_cong_weak prod.case_cong_weak
  list.case_cong_weak prop_value.case_cong_weak

subsection \<open>Reading a configuration after a write\<close>

lemma get_config_option_opt: "get_config_option c s k = opt c s k"
  by (auto simp: get_config_option_def config_option_is_set_def has_option_def opt_def
      has_section_def split: option.splits)

lemma has_option_opt: "has_option c s k = (opt c s k \<noteq> None)"
  by (simp add: has_option_def opt_def split: option.splits)

lemma config_option_is_set_opt: "config_option_is_set c s k = (opt c s k \<noteq> None)"
  by (auto simp: config_option_is_set_def has_option_def opt_def has_section_def
      split: option.splits)

lemma opt_has_section: "opt c s k = Some v \<Longrightarrow> has_section c s"
  by (auto simp: opt_def has_section_def split: option.splits)

lemma no_section_opt: "\<not> has_section c s \<Longrightarrow> opt c s k = None"
  by (auto simp: opt_def has_section_def split: option.splits)

lemma opt_set_section:
  "opt (set_section c s d) s' k = (if s' = s then map_of d k else opt c s' k)"
  by (simp add: opt_def set_section_def update_conv')

lemma has_section_set_section:
  "has_section (set_section c s d) s' = (s' = s \<or> has_section c s')"
  by (simp add: has_section_def set_section_def update_conv')

lemma opt_set_option:
  "opt (set_option c s k v) s' k' =
     (if s' = s \<and> k' = k \<and> has_section c s then Some v else opt c s' k')"
  by (auto simp: opt_def set_option_def has_section_def update_conv' split: option.splits)

lemma has_section_set_option: "has_section (set_option c s k v) s' = has_section c s'"
  by (auto simp: set_option_def has_section_def update_conv' split: option.splits)

lemma opt_set_default:
  "opt (set_default c s k v) s' k' =
     (if s' = s \<and> k' = k \<and> opt c s k = None then Some v else opt c s' k')"
  by (auto simp: set_default_def Let_def has_option_opt opt_set_option opt_set_section
      has_section_set_section dest: opt_has_section)
    (auto simp: opt_def has_section_def split: option.splits)

lemma has_section_set_default:
  "has_section (set_default c s k v) s' = (s' = s \<or> has_section c s')"
  by (auto simp: set_default_def Let_def has_section_set_option has_section_set_section)

lemma opt_change_set_config_option:
  "opt (change_set_config_option c s k v) s' k' =
     (if s' = s \<and> k' = k \<and> opt c s k \<noteq> None then Some v else opt c s' k')"
  by (auto simp: change_set_config_option_def config_option_is_set_opt opt_set_option
      dest: opt_has_section)

lemma has_section_change_set_config_option:
  "has_section (change_set_config_option c s k v) s' = has_section c s'"
  by (simp add: change_set_config_option_def has_section_set_option)

lemmas opt_simps =
  get_config_option_opt has_option_opt config_option_is_set_opt
  opt_set_section has_section_set_section opt_set_option has_section_set_option
  opt_set_default has_section_set_default opt_change_set_config_option
  has_section_change_set_config_option

subsection \<open>Layer-3 method resolution\<close>

text \<open>
  Names for the parts of \<open>set_ip_method\<close>: the method requested by a subnet type and
  whether the type is missing from \<open>method_map\<close> (both computed by the \<^verbatim>\<open>try\<close>
  block), the configuration after the \<^verbatim>\<open>try\<close> block, the test of the two early
  returns, and the test that precedes the default for \<^verbatim>\<open>ipv4\<close>.
\<close>

definition requested_method :: "string option \<Rightarrow> string" where
  "requested_method t =
     (case t of
        None \<Rightarrow> ''disabled''
      | Some s \<Rightarrow> if s = [] then ''disabled''
                  else (case map_of method_map s of Some m \<Rightarrow> m | None \<Rightarrow> ''auto''))"

definition unrecognized :: "string option \<Rightarrow> bool" where
  "unrecognized t = (case t of None \<Rightarrow> False | Some s \<Rightarrow> s \<noteq> [] \<and> map_of method_map s = None)"

definition ip_method_try :: "config \<Rightarrow> string \<Rightarrow> string option \<Rightarrow> config" where
  "ip_method_try c f t =
     (if unrecognized t
      then set_option (set_default c f ''method'' ''disabled'') f ''may-fail'' ''true''
      else set_default c f ''method'' ''disabled'')"

definition ip_method_kept :: "config \<Rightarrow> string \<Rightarrow> string option \<Rightarrow> bool" where
  "ip_method_kept c f t =
     (opt c f ''method'' = Some ''dhcp''
      \<or> (opt c f ''method'' = Some ''auto'' \<and> requested_method t = ''manual''))"

definition disables_ipv4 :: "string option \<Rightarrow> bool" where
  "disables_ipv4 t =
     (t \<in> {Some ''ipv6_dhcpv6-stateful'', Some ''ipv6_dhcpv6-stateless'', Some ''ipv6_slaac''})"

lemma method_map_range:
  assumes "map_of method_map s = Some m"
  shows "m \<in> {''manual'', ''auto'', ''dhcp''}"
proof -
  from assms have "(s, m) \<in> set method_map" by (rule map_of_SomeD)
  then show ?thesis by (auto simp: method_map_def)
qed

lemma requested_method_Some:
  "s \<noteq> [] \<Longrightarrow> requested_method (Some s) \<in> {''manual'', ''auto'', ''dhcp''}"
  using method_map_range [of s] by (auto simp: requested_method_def split: option.splits)

lemma requested_method_static:
  "t \<in> {''static'', ''static6''} \<Longrightarrow> requested_method (Some t) = ''manual''"
  by (auto simp: requested_method_def method_map_def)

lemma requested_method_dhcp: "requested_method (Some ''dhcp'') = ''auto''"
  by (simp add: requested_method_def method_map_def)

lemma requested_method_falsy:
  "requested_method None = ''disabled''" "requested_method (Some []) = ''disabled''"
  by (simp_all add: requested_method_def)

lemma opt_ip_method_try:
  "opt (ip_method_try c f t) s k =
     (if s = f \<and> k = ''may-fail'' \<and> unrecognized t then Some ''true''
      else if s = f \<and> k = ''method'' \<and> opt c f ''method'' = None then Some ''disabled''
      else opt c s k)"
  by (simp add: ip_method_try_def opt_simps)

lemma has_section_ip_method_try:
  "has_section (ip_method_try c f t) s = (s = f \<or> has_section c s)"
  by (simp add: ip_method_try_def opt_simps)

lemma ip_method_kept_try:
  "ip_method_kept (ip_method_try c f t) f t = ip_method_kept c f t"
  by (auto simp: ip_method_kept_def opt_ip_method_try)

lemma set_ip_method_try:
  "set_ip_method c f t =
     (if ip_method_kept (ip_method_try c f t) f t then ip_method_try c f t
      else set_default
             (set_option
                (if disables_ipv4 t
                 then set_default (ip_method_try c f t) ''ipv4'' ''method'' ''disabled''
                 else ip_method_try c f t)
                f ''method'' (requested_method t))
             f ''may-fail'' ''false'')"
proof (cases t)
  case None
  then show ?thesis
    by (simp add: set_ip_method_def ip_method_try_def ip_method_kept_def disables_ipv4_def
        requested_method_def unrecognized_def)
next
  case (Some s)
  show ?thesis
  proof (cases "s = []")
    case True
    with Some show ?thesis
      by (simp add: set_ip_method_def ip_method_try_def ip_method_kept_def disables_ipv4_def
          requested_method_def unrecognized_def)
  next
    case False
    show ?thesis
    proof (cases "map_of method_map s")
      case None
      with Some False show ?thesis
        unfolding set_ip_method_def ip_method_try_def ip_method_kept_def disables_ipv4_def
          requested_method_def unrecognized_def
        by (simp add: Let_def del: insert_iff)
    next
      case (Some m)
      with \<open>t = Some s\<close> False show ?thesis
        unfolding set_ip_method_def ip_method_try_def ip_method_kept_def disables_ipv4_def
          requested_method_def unrecognized_def
        by (simp add: Let_def del: insert_iff)
    qed
  qed
qed

lemmas set_ip_method_steps = set_ip_method_try [unfolded ip_method_kept_try]

lemma opt_set_ip_method:
  "opt (set_ip_method c f t) s k =
     (if ip_method_kept c f t then opt (ip_method_try c f t) s k
      else if s = f \<and> k = ''may-fail''
      then (case opt (ip_method_try c f t) f ''may-fail'' of
              None \<Rightarrow> Some ''false'' | Some v \<Rightarrow> Some v)
      else if s = f \<and> k = ''method'' then Some (requested_method t)
      else if s = ''ipv4'' \<and> k = ''method'' \<and> disables_ipv4 t
              \<and> opt (ip_method_try c f t) ''ipv4'' ''method'' = None
      then Some ''disabled''
      else opt (ip_method_try c f t) s k)"
  by (simp add: set_ip_method_steps opt_simps has_section_ip_method_try split: option.splits)


lemma opt_set_ip_method_method_same:
  "opt (set_ip_method c f t) f ''method'' =
     (if opt c f ''method'' = Some ''dhcp'' then Some ''dhcp''
      else if opt c f ''method'' = Some ''auto'' \<and> requested_method t = ''manual''
      then Some ''auto'' else Some (requested_method t))"
  by (auto simp: opt_set_ip_method opt_ip_method_try ip_method_kept_def)

lemma opt_set_ip_method_method_other:
  "fam \<noteq> f \<Longrightarrow> opt (set_ip_method c f t) fam ''method'' =
     (if fam = ''ipv4'' \<and> opt c ''ipv4'' ''method'' = None \<and> disables_ipv4 t
         \<and> \<not> ip_method_kept c f t
      then Some ''disabled'' else opt c fam ''method'')"
  by (auto simp: opt_set_ip_method opt_ip_method_try)

lemma opt_set_ip_method_mayfail_same:
  "opt (set_ip_method c f t) f ''may-fail'' =
     (if unrecognized t then Some ''true''
      else if ip_method_kept c f t then opt c f ''may-fail''
      else (case opt c f ''may-fail'' of None \<Rightarrow> Some ''false'' | Some v \<Rightarrow> Some v))"
  by (auto simp: opt_set_ip_method opt_ip_method_try split: option.splits)

lemma opt_set_ip_method_mayfail_other:
  "fam \<noteq> f \<Longrightarrow> opt (set_ip_method c f t) fam ''may-fail'' = opt c fam ''may-fail''"
  by (auto simp: opt_set_ip_method opt_ip_method_try)

lemma opt_set_ip_method_frame:
  "k \<noteq> ''method'' \<Longrightarrow> k \<noteq> ''may-fail'' \<Longrightarrow> opt (set_ip_method c f t) s k = opt c s k"
  by (auto simp: opt_set_ip_method opt_ip_method_try)

subsection \<open>Numbered keys\<close>

lemma count_loop_free: "map_of os (p @ str_nat (count_loop os p i)) = None"
  by (induction os p i rule: count_loop.induct) (subst count_loop.simps, simp)

lemma count_loop_ge: "i \<le> count_loop os p i"
proof (induction os p i rule: count_loop.induct)
  case (1 os key_prefix index)
  show ?case
  proof (cases "map_of os (key_prefix @ str_nat index) \<noteq> None")
    case True
    with "1.IH" have "Suc index \<le> count_loop os key_prefix (Suc index)" by simp
    with True show ?thesis by (subst count_loop.simps) simp
  next
    case False
    then show ?thesis by (subst count_loop.simps) simp
  qed
qed

lemma count_loop_lowest:
  "i \<le> j \<Longrightarrow> j < count_loop os p i \<Longrightarrow> map_of os (p @ str_nat j) \<noteq> None"
proof (induction os p i rule: count_loop.induct)
  case (1 os key_prefix index)
  show ?case
  proof (cases "map_of os (key_prefix @ str_nat index) \<noteq> None")
    case True
    then have eq: "count_loop os key_prefix index = count_loop os key_prefix (Suc index)"
      by (subst count_loop.simps) simp
    show ?thesis
    proof (cases "j = index")
      case True
      with \<open>map_of os (key_prefix @ str_nat index) \<noteq> None\<close> show ?thesis by simp
    next
      case False
      with "1.prems" eq have "Suc index \<le> j" "j < count_loop os key_prefix (Suc index)"
        by simp_all
      with "1.IH" True show ?thesis by simp
    qed
  next
    case False
    then have "count_loop os key_prefix index = index" by (subst count_loop.simps) simp
    with "1.prems" show ?thesis by simp
  qed
qed

text \<open>The index that \<open>get_next_numbered_section\<close> appends to the prefix.\<close>

definition next_index :: "config \<Rightarrow> string \<Rightarrow> string \<Rightarrow> nat" where
  "next_index c s p = count_loop (case map_of c s of None \<Rightarrow> [] | Some os \<Rightarrow> os) p 1"

lemma next_index_free: "opt c s (p @ str_nat (next_index c s p)) = None"
  by (simp add: next_index_def opt_def count_loop_free split: option.splits)

lemma next_index_ge: "1 \<le> next_index c s p"
  unfolding next_index_def by (rule count_loop_ge)

lemma next_index_lowest:
  "1 \<le> j \<Longrightarrow> j < next_index c s p \<Longrightarrow> opt c s (p @ str_nat j) \<noteq> None"
  using count_loop_lowest [of 1 j "case map_of c s of None \<Rightarrow> [] | Some os \<Rightarrow> os" p]
  by (auto simp: next_index_def opt_def split: option.splits)

text \<open>The first statement of \<open>get_next_numbered_section\<close>.\<close>

definition ensure_section :: "config \<Rightarrow> string \<Rightarrow> config" where
  "ensure_section c s = (if \<not> has_section c s then set_section c s [] else c)"

lemma get_next_numbered_section_eq:
  "get_next_numbered_section c s p = (ensure_section c s, p @ str_nat (next_index c s p))"
  by (auto simp: get_next_numbered_section_def next_index_def ensure_section_def Let_def
      has_section_def set_section_def update_conv' split: option.splits)

lemma opt_ensure_section: "opt (ensure_section c s) s' k = opt c s' k"
  by (auto simp: ensure_section_def opt_set_section no_section_opt)

lemma has_section_ensure_section:
  "has_section (ensure_section c s) s' = (s' = s \<or> has_section c s')"
  by (auto simp: ensure_section_def has_section_set_section)

lemma opt_add_numbered:
  "opt (add_numbered c s p v) s' k =
     (if s' = s \<and> k = p @ str_nat (next_index c s p) then Some v else opt c s' k)"
  by (simp add: add_numbered_def get_next_numbered_section_eq opt_set_option
      opt_ensure_section has_section_ensure_section)


subsection \<open>Addresses and routes\<close>

text \<open>The family, the value and the key that \<open>add_route\<close> computes for a route.\<close>

definition route_family :: "helpers \<Rightarrow> route \<Rightarrow> string" where
  "route_family h r = (if is_ipv6_network h (route_network r) then ''ipv6'' else ''ipv4'')"

definition route_value :: "route \<Rightarrow> string" where
  "route_value r =
     (case route_gateway r of
        None \<Rightarrow> route_network r @ ''/'' @ str_int (route_prefix r)
      | Some g \<Rightarrow> route_network r @ ''/'' @ str_int (route_prefix r) @ '','' @ g)"

definition route_key :: "helpers \<Rightarrow> config \<Rightarrow> route \<Rightarrow> string" where
  "route_key h c r = ''route'' @ str_nat (next_index c (route_family h r) ''route'')"

lemma opt_add_route_options:
  "opt (add_route_options c s r key v) s' k =
     (if s' = s \<and> k = r @ ''_options'' \<and> has_section c s
      then Some (case opt c s (r @ ''_options'') of
                   None \<Rightarrow> key @ ''='' @ str_int v
                 | Some ro \<Rightarrow> if ro \<noteq> [] then ro @ '','' @ key @ ''='' @ str_int v
                              else key @ ''='' @ str_int v)
      else opt c s' k)"
  by (simp add: add_route_options_def Let_def opt_set_option)


lemma add_route_eq:
  "add_route h c r =
     (let f = route_family h r;
          c2 = set_option (ensure_section c f) f (route_key h c r) (route_value r)
      in case route_mtu r of
           None \<Rightarrow> c2
         | Some m \<Rightarrow> add_route_options c2 f (route_key h c r) ''mtu'' m)"
  by (simp add: add_route_def route_family_def route_value_def route_key_def
      get_next_numbered_section_eq Let_def split: option.splits)

lemma opt_add_route:
  "opt (add_route h c r) s k =
     (if s = route_family h r \<and> k = route_key h c r then Some (route_value r)
      else if s = route_family h r \<and> k = route_key h c r @ ''_options''
      then (case route_mtu r of
              None \<Rightarrow> opt c s k
            | Some m \<Rightarrow>
                Some (case opt c s k of
                        None \<Rightarrow> ''mtu='' @ str_int m
                      | Some ro \<Rightarrow> if ro \<noteq> [] then ro @ '',mtu='' @ str_int m
                                   else ''mtu='' @ str_int m))
      else opt c s k)"
  by (auto simp: add_route_eq Let_def opt_add_route_options opt_set_option opt_ensure_section
      has_section_set_option has_section_ensure_section split: option.splits)


lemma opt_add_address:
  "opt (add_address c f subnet) s k =
     (case subnet_address subnet of
        None \<Rightarrow> opt c s k
      | Some a \<Rightarrow>
          if s = f \<and> k = ''address'' @ str_nat (next_index c f ''address'')
          then Some (a @ ''/'' @ str_int (subnet_prefix subnet)) else opt c s k)"
  by (auto simp: add_address_def opt_add_numbered split: option.splits)


text \<open>Keys that the numbered writes never touch.\<close>

lemma opt_add_route_other:
  "take 5 k \<noteq> ''route'' \<Longrightarrow> opt (add_route h c r) s k = opt c s k"
  by (auto simp: opt_add_route route_key_def split: option.splits)

lemma opt_foldl_add_route_other:
  "take 5 k \<noteq> ''route'' \<Longrightarrow> opt (foldl (add_route h) c rs) s k = opt c s k"
  by (induction rs arbitrary: c) (simp_all add: opt_add_route_other)

lemma opt_add_address_other:
  "take 7 k \<noteq> ''address'' \<Longrightarrow> opt (add_address c f subnet) s k = opt c s k"
  by (auto simp: opt_add_address split: option.splits)

text \<open>The family that the loop over the subnets computes for a subnet.\<close>

definition subnet_family :: "helpers \<Rightarrow> subnet \<Rightarrow> string" where
  "subnet_family h s = (if subnet_is_ipv6 h s then ''ipv6'' else ''ipv4'')"

lemma opt_render_subnet_method:
  "opt (fst (render_subnet h (c, ns, ds, m) subnet)) s ''method'' =
     opt (set_ip_method c (subnet_family h subnet) (Some (subnet_type subnet))) s ''method''"
  by (simp add: render_subnet_def subnet_family_def Let_def opt_foldl_add_route_other
      opt_set_option opt_add_address_other split: option.splits)

lemma opt_render_subnet_mayfail:
  "opt (fst (render_subnet h (c, ns, ds, m) subnet)) s ''may-fail'' =
     opt (set_ip_method c (subnet_family h subnet) (Some (subnet_type subnet))) s ''may-fail''"
  by (simp add: render_subnet_def subnet_family_def Let_def opt_foldl_add_route_other
      opt_set_option opt_add_address_other split: option.splits)

subsection \<open>Example inputs\<close>

text \<open>A subnet that has only a type, an interface that has only a name, a type and
  subnets, and a network state without global DNS; the examples below fill in the keys
  they need.\<close>

definition example_subnet :: "string \<Rightarrow> subnet" where
  "example_subnet ty =
     \<lparr>subnet_type = ty, subnet_address = None, subnet_prefix = 0, subnet_gateway = None,
      subnet_routes = [], subnet_dns_nameservers = None, subnet_dns_search = None,
      subnet_mtu = None\<rparr>"

definition example_iface :: "string \<Rightarrow> string \<Rightarrow> subnet list \<Rightarrow> iface" where
  "example_iface name ty subnets =
     \<lparr>iface_name = name, iface_type = ty, iface_mtu = None, iface_mac_address = None,
      iface_wakeonlan = False, iface_bond_master = None, iface_vlan_raw_device = None,
      iface_bridge_ports = [], iface_subnets = subnets, iface_dns = None,
      iface_config_id = None, iface_props = []\<rparr>"

definition example_state :: "iface list \<Rightarrow> network_state" where
  "example_state ifaces =
     \<lparr>iter_interfaces = ifaces, dns_nameservers = [], dns_searchdomains = []\<rparr>"

lemmas example_defs = example_subnet_def example_iface_def example_state_def

subsection \<open>The method of a family over a sequence of resolutions\<close>

lemma foldl_set_ip_method_dhcp:
  "opt c family ''method'' = Some ''dhcp'' \<Longrightarrow>
   opt (foldl (\<lambda>c (f, t). set_ip_method c f t) c calls) family ''method'' = Some ''dhcp''"
proof (induction calls arbitrary: c)
  case Nil
  then show ?case by simp
next
  case (Cons a calls)
  obtain f t where a: "a = (f, t)" by (cases a)
  have "opt (set_ip_method c f t) family ''method'' = Some ''dhcp''"
    using Cons.prems
    by (cases "family = f") (auto simp: opt_set_ip_method_method_same opt_set_ip_method_method_other)
  from Cons.IH [OF this] show ?case by (simp add: a)
qed

lemma set_ip_method_dynamic:
  assumes "opt c family ''method'' \<in> {Some ''auto'', Some ''dhcp''}" and "t \<noteq> []"
  shows "opt (set_ip_method c f (Some t)) family ''method'' \<in> {Some ''auto'', Some ''dhcp''}"
proof (cases "family = f")
  case True
  with assms(1) requested_method_Some [OF assms(2)] show ?thesis
    by (auto simp: opt_set_ip_method_method_same)
next
  case False
  with assms(1) show ?thesis
    by (auto simp: opt_set_ip_method_method_other)
qed

lemma foldl_set_ip_method_dynamic:
  "opt c family ''method'' \<in> {Some ''auto'', Some ''dhcp''} \<Longrightarrow> list_all (\<lambda>(f, t). t \<noteq> []) calls \<Longrightarrow>
   opt (foldl (\<lambda>c (f, t). set_ip_method c f (Some t)) c calls) family ''method''
     \<in> {Some ''auto'', Some ''dhcp''}"
proof (induction calls arbitrary: c)
  case Nil
  then show ?case by simp
next
  case (Cons a calls)
  obtain f t where a: "a = (f, t)" by (cases a)
  with Cons.prems have t: "t \<noteq> []" and rest: "list_all (\<lambda>(f, t). t \<noteq> []) calls" by simp_all
  from Cons.IH [OF set_ip_method_dynamic [OF Cons.prems(1) t] rest] show ?case by (simp add: a)
qed

lemma foldl_render_subnet_dhcp:
  "opt (fst acc) family ''method'' = Some ''dhcp'' \<Longrightarrow>
   opt (fst (foldl (render_subnet h) acc subnets)) family ''method'' = Some ''dhcp''"
proof (induction subnets arbitrary: acc)
  case Nil
  then show ?case by simp
next
  case (Cons s subnets)
  obtain c ns ds m where acc: "acc = (c, ns, ds, m)" by (cases acc)
  with Cons.prems have "opt c family ''method'' = Some ''dhcp''" by simp
  from foldl_set_ip_method_dhcp [OF this, of "[(subnet_family h s, Some (subnet_type s))]"]
  have "opt (fst (render_subnet h acc s)) family ''method'' = Some ''dhcp''"
    by (simp add: acc opt_render_subnet_method)
  from Cons.IH [OF this] show ?case by simp
qed

lemma foldl_render_subnet_dynamic:
  "opt (fst acc) family ''method'' \<in> {Some ''auto'', Some ''dhcp''} \<Longrightarrow>
   list_all (\<lambda>s. subnet_type s \<noteq> []) subnets \<Longrightarrow>
   opt (fst (foldl (render_subnet h) acc subnets)) family ''method''
     \<in> {Some ''auto'', Some ''dhcp''}"
proof (induction subnets arbitrary: acc)
  case Nil
  then show ?case by simp
next
  case (Cons s subnets)
  obtain c ns ds m where acc: "acc = (c, ns, ds, m)" by (cases acc)
  from Cons.prems have t: "subnet_type s \<noteq> []"
    and rest: "list_all (\<lambda>s. subnet_type s \<noteq> []) subnets" by simp_all
  from Cons.prems(1) have "opt c family ''method'' \<in> {Some ''auto'', Some ''dhcp''}"
    by (simp add: acc)
  from set_ip_method_dynamic [OF this t, of "subnet_family h s"]
  have "opt (fst (render_subnet h acc s)) family ''method'' \<in> {Some ''auto'', Some ''dhcp''}"
    by (simp add: acc opt_render_subnet_method)
  from Cons.IH [OF this rest] show ?case by simp
qed

lemma render_layer3_dhcp_static:
  assumes "opt c family ''method'' \<noteq> Some ''dhcp''"
    and "iface_subnets iface = [s1, s2]"
    and "subnet_type s1 = ''dhcp''" and "subnet_type s2 = ''static''"
    and "subnet_family h s1 = family" and "subnet_family h s2 = family"
  shows "opt (fst (render_layer3 h c if_type iface)) family ''method'' = Some ''auto''"
proof -
  obtain c1 ns ds m where r1: "render_subnet h (c, [], [], None) s1 = (c1, ns, ds, m)"
    by (cases "render_subnet h (c, [], [], None) s1")
  from opt_render_subnet_method [of h c "[]" "[]" None s1 family] assms(1,3,5)
  have "opt c1 family ''method'' = Some ''auto''"
    by (simp add: r1 opt_set_ip_method_method_same requested_method_dhcp)
  with opt_render_subnet_method [of h c1 ns ds m s2 family] assms(4,6)
  have "opt (fst (render_subnet h (c1, ns, ds, m) s2)) family ''method'' = Some ''auto''"
    by (simp add: opt_set_ip_method_method_same requested_method_static)
  with assms(2) r1 show ?thesis by (simp add: render_layer3_def)
qed

text \<open>
  Claim C6. Over every sequence of resolutions, on either family and with any subnet type
  (a missing or empty one included), a method that is \<open>dhcp\<close> stays \<open>dhcp\<close>; this holds for
  calls of \<open>set_ip_method\<close> and for the loop over the subnets of an interface. A method
  that is \<open>auto\<close> is kept by a request for \<open>manual\<close> (a \<open>static\<close> or \<open>static6\<close> subnet), and a
  method that is \<open>auto\<close> or \<open>dhcp\<close> stays \<open>auto\<close> or \<open>dhcp\<close> over every sequence of
  resolutions whose subnet types are not empty. The subnets \<open>dhcp\<close>, \<open>static\<close> in that
  order on one family whose method is not \<open>dhcp\<close> end with \<open>auto\<close>, for the calls of
  \<open>set_ip_method\<close> and for the layer-3 part of \<open>render_interface\<close>.
\<close>

theorem method_kept_by_typed_resolutions:
  "(opt c family ''method'' = Some ''dhcp'' \<longrightarrow>
      opt (foldl (\<lambda>c (f, t). set_ip_method c f t) c calls) family ''method'' = Some ''dhcp'')
   \<and> (opt c family ''method'' = Some ''dhcp'' \<longrightarrow>
      opt (fst (foldl (render_subnet h) (c, ns, ds, m) subnets)) family ''method''
        = Some ''dhcp'')
   \<and> (opt c family ''method'' = Some ''auto'' \<and> t \<in> {''static'', ''static6''} \<longrightarrow>
      opt (set_ip_method c family (Some t)) family ''method'' = Some ''auto'')
   \<and> (opt c family ''method'' \<in> {Some ''auto'', Some ''dhcp''}
        \<and> list_all (\<lambda>(f, t). t \<noteq> []) typed_calls \<longrightarrow>
      opt (foldl (\<lambda>c (f, t). set_ip_method c f (Some t)) c typed_calls) family ''method''
        \<in> {Some ''auto'', Some ''dhcp''})
   \<and> (opt c family ''method'' \<in> {Some ''auto'', Some ''dhcp''}
        \<and> list_all (\<lambda>s. subnet_type s \<noteq> []) subnets \<longrightarrow>
      opt (fst (foldl (render_subnet h) (c, ns, ds, m) subnets)) family ''method''
        \<in> {Some ''auto'', Some ''dhcp''})
   \<and> (opt c family ''method'' \<noteq> Some ''dhcp'' \<longrightarrow>
      opt (foldl (\<lambda>c t. set_ip_method c family (Some t)) c [''dhcp'', ''static''])
        family ''method'' = Some ''auto'')
   \<and> (opt c family ''method'' \<noteq> Some ''dhcp'' \<and> iface_subnets iface = [s1, s2]
        \<and> subnet_type s1 = ''dhcp'' \<and> subnet_type s2 = ''static''
        \<and> subnet_family h s1 = family \<and> subnet_family h s2 = family \<longrightarrow>
      opt (fst (render_layer3 h c if_type iface)) family ''method'' = Some ''auto'')"
proof (intro conjI impI)
  assume "opt c family ''method'' = Some ''dhcp''"
  then show "opt (foldl (\<lambda>c (f, t). set_ip_method c f t) c calls) family ''method'' = Some ''dhcp''"
    by (rule foldl_set_ip_method_dhcp)
next
  assume "opt c family ''method'' = Some ''dhcp''"
  then show "opt (fst (foldl (render_subnet h) (c, ns, ds, m) subnets)) family ''method''
      = Some ''dhcp''"
    by (intro foldl_render_subnet_dhcp) simp
next
  assume "opt c family ''method'' = Some ''auto'' \<and> t \<in> {''static'', ''static6''}"
  then show "opt (set_ip_method c family (Some t)) family ''method'' = Some ''auto''"
    by (auto simp: opt_set_ip_method_method_same requested_method_static)
next
  assume "opt c family ''method'' \<in> {Some ''auto'', Some ''dhcp''}
    \<and> list_all (\<lambda>(f, t). t \<noteq> []) typed_calls"
  then show "opt (foldl (\<lambda>c (f, t). set_ip_method c f (Some t)) c typed_calls) family ''method''
      \<in> {Some ''auto'', Some ''dhcp''}"
    using foldl_set_ip_method_dynamic by blast
next
  assume "opt c family ''method'' \<in> {Some ''auto'', Some ''dhcp''}
    \<and> list_all (\<lambda>s. subnet_type s \<noteq> []) subnets"
  then show "opt (fst (foldl (render_subnet h) (c, ns, ds, m) subnets)) family ''method''
      \<in> {Some ''auto'', Some ''dhcp''}"
    by (intro foldl_render_subnet_dynamic) simp_all
next
  assume "opt c family ''method'' \<noteq> Some ''dhcp''"
  then show "opt (foldl (\<lambda>c t. set_ip_method c family (Some t)) c [''dhcp'', ''static''])
      family ''method'' = Some ''auto''"
    by (simp add: opt_set_ip_method_method_same requested_method_static requested_method_dhcp)
next
  assume "opt c family ''method'' \<noteq> Some ''dhcp'' \<and> iface_subnets iface = [s1, s2]
    \<and> subnet_type s1 = ''dhcp'' \<and> subnet_type s2 = ''static''
    \<and> subnet_family h s1 = family \<and> subnet_family h s2 = family"
  then show "opt (fst (render_layer3 h c if_type iface)) family ''method'' = Some ''auto''"
    by (elim conjE) (rule render_layer3_dhcp_static, assumption+)
qed

theorem method_kept_by_typed_resolutions_witness:
  "opt (set_ip_method (NMConnection example_helpers ''eth0'') ''ipv6''
          (Some ''ipv6_dhcpv6-stateful'')) ''ipv6'' ''method'' = Some ''dhcp''
   \<and> opt (foldl (\<lambda>c (f, t). set_ip_method c f t)
            (set_ip_method (NMConnection example_helpers ''eth0'') ''ipv6''
               (Some ''ipv6_dhcpv6-stateful''))
            [(''ipv6'', Some ''static6''), (''ipv4'', Some ''dhcp4''), (''ipv6'', None)])
        ''ipv6'' ''method'' = Some ''dhcp''
   \<and> opt (fst (foldl (render_subnet example_helpers)
                 (set_ip_method (NMConnection example_helpers ''eth0'') ''ipv6''
                    (Some ''ipv6_dhcpv6-stateful''), [], [], None)
                 [example_subnet ''static6'', example_subnet []]))
        ''ipv6'' ''method'' = Some ''dhcp''
   \<and> opt (set_ip_method (NMConnection example_helpers ''eth0'') ''ipv4'' (Some ''dhcp''))
        ''ipv4'' ''method'' = Some ''auto''
   \<and> opt (set_ip_method
            (set_ip_method (NMConnection example_helpers ''eth0'') ''ipv4'' (Some ''dhcp''))
            ''ipv4'' (Some ''static'')) ''ipv4'' ''method'' = Some ''auto''
   \<and> list_all (\<lambda>(f, t). t \<noteq> [])
        [(''ipv4'', ''static''), (''ipv6'', ''dhcp6''), (''ipv4'', ''unknown'')]
   \<and> opt (foldl (\<lambda>c (f, t). set_ip_method c f (Some t))
            (set_ip_method (NMConnection example_helpers ''eth0'') ''ipv4'' (Some ''dhcp''))
            [(''ipv4'', ''static''), (''ipv6'', ''dhcp6''), (''ipv4'', ''unknown'')])
        ''ipv4'' ''method'' \<in> {Some ''auto'', Some ''dhcp''}
   \<and> list_all (\<lambda>s. subnet_type s \<noteq> []) [example_subnet ''static'', example_subnet ''dhcp6'']
   \<and> opt (fst (foldl (render_subnet example_helpers)
                 (set_ip_method (NMConnection example_helpers ''eth0'') ''ipv4''
                    (Some ''dhcp''), [], [], None)
                 [example_subnet ''static'', example_subnet ''dhcp6'']))
        ''ipv4'' ''method'' \<in> {Some ''auto'', Some ''dhcp''}
   \<and> opt (NMConnection example_helpers ''eth0'') ''ipv4'' ''method'' \<noteq> Some ''dhcp''
   \<and> opt (foldl (\<lambda>c t. set_ip_method c ''ipv4'' (Some t))
            (NMConnection example_helpers ''eth0'') [''dhcp'', ''static''])
        ''ipv4'' ''method'' = Some ''auto''
   \<and> iface_subnets (example_iface ''eth0'' ''physical''
        [example_subnet ''dhcp'', example_subnet ''static''])
        = [example_subnet ''dhcp'', example_subnet ''static'']
   \<and> subnet_family example_helpers (example_subnet ''dhcp'') = ''ipv4''
   \<and> subnet_family example_helpers (example_subnet ''static'') = ''ipv4''
   \<and> opt (fst (render_layer3 example_helpers (NMConnection example_helpers ''eth0'')
                 ''ethernet''
                 (example_iface ''eth0'' ''physical''
                    [example_subnet ''dhcp'', example_subnet ''static''])))
        ''ipv4'' ''method'' = Some ''auto''"
proof -
  let ?c0 = "NMConnection example_helpers ''eth0''"
  let ?cd = "set_ip_method ?c0 ''ipv6'' (Some ''ipv6_dhcpv6-stateful'')"
  let ?ca = "set_ip_method ?c0 ''ipv4'' (Some ''dhcp'')"
  let ?calls = "[(''ipv6'', Some ''static6''), (''ipv4'', Some ''dhcp4''), (''ipv6'', None)]"
  let ?typed = "[(''ipv4'', ''static''), (''ipv6'', ''dhcp6''), (''ipv4'', ''unknown'')]"
  let ?i = "example_iface ''eth0'' ''physical''
              [example_subnet ''dhcp'', example_subnet ''static'']"
  have c0: "opt ?c0 ''ipv4'' ''method'' = None" "opt ?c0 ''ipv6'' ''method'' = None"
    by (simp_all add: NMConnection_def opt_def)
  have hd: "opt ?cd ''ipv6'' ''method'' = Some ''dhcp''"
    by (simp add: opt_set_ip_method_method_same c0 requested_method_def method_map_def)
  have ha: "opt ?ca ''ipv4'' ''method'' = Some ''auto''"
    by (simp add: opt_set_ip_method_method_same c0 requested_method_dhcp)
  have h0: "opt ?c0 ''ipv4'' ''method'' \<noteq> Some ''dhcp''"
    by (simp add: c0)
  have typed: "list_all (\<lambda>(f, t). t \<noteq> []) ?typed" by simp
  have subnets: "list_all (\<lambda>s. subnet_type s \<noteq> [])
      [example_subnet ''static'', example_subnet ''dhcp6'']"
    by (simp add: example_subnet_def)
  have i: "iface_subnets ?i = [example_subnet ''dhcp'', example_subnet ''static'']"
    "subnet_type (example_subnet ''dhcp'') = ''dhcp''"
    "subnet_type (example_subnet ''static'') = ''static''"
    "subnet_family example_helpers (example_subnet ''dhcp'') = ''ipv4''"
    "subnet_family example_helpers (example_subnet ''static'') = ''ipv4''"
    by (simp_all add: example_defs subnet_family_def example_helpers_def)
  note at_dhcp = method_kept_by_typed_resolutions
    [of ?cd "''ipv6''" ?calls example_helpers "[]" "[]" None
        "[example_subnet ''static6'', example_subnet []]"]
  note at_auto = method_kept_by_typed_resolutions
    [of ?ca "''ipv4''" _ example_helpers "[]" "[]" None
        "[example_subnet ''static'', example_subnet ''dhcp6'']" "''static''" ?typed]
  note at_fresh = method_kept_by_typed_resolutions
    [of ?c0 "''ipv4''" _ example_helpers _ _ _ _ _ _ ?i
        "example_subnet ''dhcp''" "example_subnet ''static''" "''ethernet''"]
  from hd at_dhcp have d1: "opt (foldl (\<lambda>c (f, t). set_ip_method c f t) ?cd ?calls)
      ''ipv6'' ''method'' = Some ''dhcp''"
    by blast
  from hd at_dhcp have d2: "opt (fst (foldl (render_subnet example_helpers)
      (?cd, [], [], None) [example_subnet ''static6'', example_subnet []]))
      ''ipv6'' ''method'' = Some ''dhcp''"
    by blast
  from ha at_auto have a1: "opt (set_ip_method ?ca ''ipv4'' (Some ''static''))
      ''ipv4'' ''method'' = Some ''auto''"
    by blast
  from ha typed at_auto have a2: "opt (foldl (\<lambda>c (f, t). set_ip_method c f (Some t)) ?ca ?typed)
      ''ipv4'' ''method'' \<in> {Some ''auto'', Some ''dhcp''}"
    by blast
  from ha subnets at_auto have a3: "opt (fst (foldl (render_subnet example_helpers)
      (?ca, [], [], None) [example_subnet ''static'', example_subnet ''dhcp6'']))
      ''ipv4'' ''method'' \<in> {Some ''auto'', Some ''dhcp''}"
    by blast
  from h0 at_fresh have f1: "opt (foldl (\<lambda>c t. set_ip_method c ''ipv4'' (Some t)) ?c0
      [''dhcp'', ''static'']) ''ipv4'' ''method'' = Some ''auto''"
    by blast
  from h0 i at_fresh have f2: "opt (fst (render_layer3 example_helpers ?c0 ''ethernet'' ?i))
      ''ipv4'' ''method'' = Some ''auto''"
    by blast
  from hd d1 d2 ha a1 typed a2 subnets a3 h0 f1 i(1,4,5) f2 show ?thesis
    by (intro conjI)
qed

text \<open>
  Against the claim as stated ("every sequence of resolutions", "once it is auto"): a
  resolution with no subnet type, or with an empty one, requests \<open>disabled\<close>, which
  replaces \<open>auto\<close>; a \<open>static\<close> subnet after it then sets \<open>manual\<close>. On a new profile the
  resolutions \<open>dhcp\<close>, none, \<open>static\<close> on \<open>ipv4\<close> give \<open>auto\<close>, then \<open>disabled\<close>, then
  \<open>manual\<close>, and so do the subnets of types \<open>dhcp\<close>, empty, \<open>static\<close> of an interface.
\<close>

theorem method_downgraded_after_empty_type:
  "opt (foldl (\<lambda>c t. set_ip_method c ''ipv4'' t) (NMConnection example_helpers ''eth0'')
          [Some ''dhcp'']) ''ipv4'' ''method'' = Some ''auto''
   \<and> opt (foldl (\<lambda>c t. set_ip_method c ''ipv4'' t) (NMConnection example_helpers ''eth0'')
          [Some ''dhcp'', None]) ''ipv4'' ''method'' = Some ''disabled''
   \<and> opt (foldl (\<lambda>c t. set_ip_method c ''ipv4'' t) (NMConnection example_helpers ''eth0'')
          [Some ''dhcp'', None, Some ''static'']) ''ipv4'' ''method'' = Some ''manual''
   \<and> opt (fst (render_layer3 example_helpers (NMConnection example_helpers ''eth0'')
                 ''ethernet''
                 (example_iface ''eth0'' ''physical''
                    [example_subnet ''dhcp'', example_subnet [], example_subnet ''static''])))
        ''ipv4'' ''method'' = Some ''manual''"
  by (simp add: config_defs connection_defs renderer_defs example_defs cong: weak_congs)

subsection \<open>Allocation of numbered keys\<close>

lemma str_nat_digits: "set (str_nat n) \<subseteq> set ''0123456789''"
proof (induction n rule: str_nat.induct)
  case (1 n)
  have nth: "\<And>i. i < 10 \<Longrightarrow> ''0123456789'' ! i \<in> set ''0123456789''"
    by (rule nth_mem) simp
  show ?case
  proof (cases "n < 10")
    case True
    with nth [of n] show ?thesis by (subst str_nat.simps) simp
  next
    case False
    with "1.IH" nth [of "n mod 10"] show ?thesis by (subst str_nat.simps) simp
  qed
qed

lemma str_nat_no_options: "str_nat j \<noteq> str_nat i @ ''_options''"
proof
  assume "str_nat j = str_nat i @ ''_options''"
  then have "CHR ''_'' \<in> set (str_nat j)" by simp
  with str_nat_digits [of j] show False by auto
qed

lemma str_nat_eq_iff [simp]: "(str_nat j = str_nat i) = (j = i)"
  by (auto dest: str_nat_inj)

text \<open>The keys \<open>p1\<close>, ..., \<open>pn\<close> of a section hold the values \<open>vs\<close>, and no other key
  \<open>p<j>\<close> is set.\<close>

definition numbered :: "config \<Rightarrow> string \<Rightarrow> string \<Rightarrow> string list \<Rightarrow> bool" where
  "numbered c s p vs =
     (\<forall>j. opt c s (p @ str_nat j)
            = (if 1 \<le> j \<and> j \<le> length vs then Some (vs ! (j - 1)) else None))"

lemma numbered_next_index:
  assumes "numbered c s p vs"
  shows "next_index c s p = Suc (length vs)"
proof -
  let ?n = "next_index c s p"
  from next_index_free [of c s p] assms have "\<not> (1 \<le> ?n \<and> ?n \<le> length vs)"
    by (auto simp: numbered_def split: if_splits)
  with next_index_ge [of c s p] have low: "length vs < ?n" by simp
  have "\<not> Suc (length vs) < ?n"
  proof
    assume "Suc (length vs) < ?n"
    with next_index_lowest [of "Suc (length vs)" c s p]
    have "opt c s (p @ str_nat (Suc (length vs))) \<noteq> None" by simp
    with assms show False by (simp add: numbered_def)
  qed
  with low show ?thesis by simp
qed

lemma numbered_add_numbered:
  assumes "numbered c s p vs"
  shows "numbered (add_numbered c s p v) s p (vs @ [v])"
  unfolding numbered_def
proof
  fix j
  from assms have old: "opt c s (p @ str_nat j)
      = (if 1 \<le> j \<and> j \<le> length vs then Some (vs ! (j - 1)) else None)"
    by (simp add: numbered_def)
  show "opt (add_numbered c s p v) s (p @ str_nat j)
      = (if 1 \<le> j \<and> j \<le> length (vs @ [v]) then Some ((vs @ [v]) ! (j - 1)) else None)"
    using old by (auto simp: opt_add_numbered numbered_next_index [OF assms] nth_append)
qed

lemma numbered_frame:
  assumes "numbered c s p vs" and "\<And>j. opt c' s (p @ str_nat j) = opt c s (p @ str_nat j)"
  shows "numbered c' s p vs"
  using assms by (simp add: numbered_def)

lemma numbered_add_address:
  assumes "numbered c s ''address'' vs"
  shows "numbered (add_address c f subnet) s ''address''
           (vs @ (case subnet_address subnet of
                    None \<Rightarrow> []
                  | Some a \<Rightarrow> if f = s then [a @ ''/'' @ str_int (subnet_prefix subnet)]
                              else []))"
proof (cases "subnet_address subnet")
  case None
  with assms show ?thesis by (simp add: add_address_def)
next
  case (Some a)
  show ?thesis
  proof (cases "f = s")
    case True
    with Some numbered_add_numbered [OF assms] show ?thesis by (simp add: add_address_def)
  next
    case False
    with Some have "opt (add_address c f subnet) s k = opt c s k" for k
      by (auto simp: opt_add_address)
    with assms False Some show ?thesis by (simp add: numbered_def)
  qed
qed

lemma numbered_address_add_route:
  "numbered c s ''address'' vs \<Longrightarrow> numbered (add_route h c r) s ''address'' vs"
  by (erule numbered_frame) (simp add: opt_add_route_other)

lemma numbered_route_add_address:
  "numbered c s ''route'' vs \<Longrightarrow> numbered (add_address c f subnet) s ''route'' vs"
  by (erule numbered_frame) (simp add: opt_add_address_other)

lemma numbered_add_route:
  assumes "numbered c s ''route'' vs"
  shows "numbered (add_route h c r) s ''route''
           (vs @ (if route_family h r = s then [route_value r] else []))"
proof (cases "route_family h r = s")
  case True
  have key: "route_key h c r = ''route'' @ str_nat (Suc (length vs))"
    using numbered_next_index [OF assms] True by (simp add: route_key_def)
  show ?thesis
    unfolding numbered_def
  proof
    fix j
    from assms have old: "opt c s (''route'' @ str_nat j)
        = (if 1 \<le> j \<and> j \<le> length vs then Some (vs ! (j - 1)) else None)"
      by (simp add: numbered_def)
    have "opt (add_route h c r) s (''route'' @ str_nat j)
        = (if j = Suc (length vs) then Some (route_value r) else opt c s (''route'' @ str_nat j))"
      using True str_nat_no_options [of j "Suc (length vs)"]
      by (simp add: opt_add_route key)
    with old show "opt (add_route h c r) s (''route'' @ str_nat j)
        = (if 1 \<le> j \<and> j \<le> length (vs @ (if route_family h r = s then [route_value r] else []))
           then Some ((vs @ (if route_family h r = s then [route_value r] else [])) ! (j - 1))
           else None)"
      using True by (auto simp: nth_append)
  qed
next
  case False
  then have "opt (add_route h c r) s k = opt c s k" for k
    by (auto simp: opt_add_route)
  with assms False show ?thesis by (simp add: numbered_def)
qed

text \<open>A call of one of the two methods that allocate a numbered key, and a sequence of
  such calls in any order.\<close>

datatype numbered_op = Add_address string subnet | Add_route route

fun apply_op :: "helpers \<Rightarrow> config \<Rightarrow> numbered_op \<Rightarrow> config" where
  "apply_op h c (Add_address family subnet) = add_address c family subnet"
| "apply_op h c (Add_route route) = add_route h c route"

text \<open>The value that a call adds under \<open>address<n>\<close>, or under \<open>route<n>\<close>, of a family.\<close>

definition address_value :: "string \<Rightarrow> string \<Rightarrow> subnet \<Rightarrow> string list" where
  "address_value s family subnet =
     (case subnet_address subnet of
        None \<Rightarrow> []
      | Some a \<Rightarrow> if family = s then [a @ ''/'' @ str_int (subnet_prefix subnet)] else [])"

fun op_addresses :: "string \<Rightarrow> numbered_op \<Rightarrow> string list" where
  "op_addresses s (Add_address family subnet) = address_value s family subnet"
| "op_addresses s (Add_route route) = []"

fun op_routes :: "helpers \<Rightarrow> string \<Rightarrow> numbered_op \<Rightarrow> string list" where
  "op_routes h s (Add_address family subnet) = []"
| "op_routes h s (Add_route route) = (if route_family h route = s then [route_value route] else [])"

lemma numbered_apply_op:
  assumes "numbered c s ''address'' as" and "numbered c s ''route'' rs"
  shows "numbered (apply_op h c x) s ''address'' (as @ op_addresses s x)
       \<and> numbered (apply_op h c x) s ''route'' (rs @ op_routes h s x)"
proof (cases x)
  case (Add_address family subnet)
  with numbered_add_address [OF assms(1), of family subnet]
    numbered_route_add_address [OF assms(2), of family subnet]
  show ?thesis by (simp add: address_value_def)
next
  case (Add_route route)
  with numbered_address_add_route [OF assms(1), of h route]
    numbered_add_route [OF assms(2), of h route]
  show ?thesis by simp
qed

lemma numbered_foldl_apply_op:
  "numbered c s ''address'' as \<Longrightarrow> numbered c s ''route'' rs \<Longrightarrow>
   numbered (foldl (apply_op h) c ops) s ''address'' (as @ concat (map (op_addresses s) ops))
   \<and> numbered (foldl (apply_op h) c ops) s ''route'' (rs @ concat (map (op_routes h s) ops))"
proof (induction ops arbitrary: c as rs)
  case Nil
  then show ?case by simp
next
  case (Cons x ops)
  from numbered_apply_op [OF Cons.prems, of h x]
  have "numbered (apply_op h c x) s ''address'' (as @ op_addresses s x)"
    and "numbered (apply_op h c x) s ''route'' (rs @ op_routes h s x)"
    by simp_all
  from Cons.IH [OF this] show ?case by simp
qed

lemma numbered_address_foldl_add_route:
  "numbered c s ''address'' vs \<Longrightarrow> numbered (foldl (add_route h) c rs) s ''address'' vs"
  by (induction rs arbitrary: c) (simp_all add: numbered_address_add_route)

lemma numbered_address_render_subnet:
  assumes "numbered c s ''address'' vs"
  shows "numbered (fst (render_subnet h (c, ns, ds, m) subnet)) s ''address''
           (vs @ address_value s (subnet_family h subnet) subnet)"
proof -
  let ?f = "subnet_family h subnet"
  let ?c1 = "set_ip_method c ?f (Some (subnet_type subnet))"
  let ?c2 = "add_address ?c1 ?f subnet"
  let ?c3 = "case subnet_gateway subnet of None \<Rightarrow> ?c2 | Some g \<Rightarrow> set_option ?c2 ?f ''gateway'' g"
  from assms have "numbered ?c1 s ''address'' vs"
    by (rule numbered_frame) (simp add: opt_set_ip_method_frame)
  from numbered_add_address [OF this, of ?f subnet]
  have "numbered ?c2 s ''address'' (vs @ address_value s ?f subnet)"
    by (simp add: address_value_def)
  then have "numbered ?c3 s ''address'' (vs @ address_value s ?f subnet)"
    by (rule numbered_frame) (simp add: opt_set_option split: option.splits)
  then have "numbered (foldl (add_route h) ?c3 (subnet_routes subnet)) s ''address''
      (vs @ address_value s ?f subnet)"
    by (rule numbered_address_foldl_add_route)
  moreover have "fst (render_subnet h (c, ns, ds, m) subnet)
      = foldl (add_route h) ?c3 (subnet_routes subnet)"
    by (simp add: render_subnet_def subnet_family_def Let_def add_address_def
        split: option.splits)
  ultimately show ?thesis by simp
qed

lemma numbered_address_foldl_render_subnet:
  "numbered (fst acc) s ''address'' vs \<Longrightarrow>
   numbered (fst (foldl (render_subnet h) acc subnets)) s ''address''
     (vs @ concat (map (\<lambda>subnet. address_value s (subnet_family h subnet) subnet) subnets))"
proof (induction subnets arbitrary: acc vs)
  case Nil
  then show ?case by simp
next
  case (Cons subnet subnets)
  obtain c ns ds m where acc: "acc = (c, ns, ds, m)" by (cases acc)
  with Cons.prems have "numbered c s ''address'' vs" by simp
  from numbered_address_render_subnet [OF this, of h ns ds m subnet]
  have "numbered (fst (render_subnet h acc subnet)) s ''address''
      (vs @ address_value s (subnet_family h subnet) subnet)"
    by (simp add: acc)
  from Cons.IH [OF this] show ?case by simp
qed

lemma numbered_address_render_layer3:
  assumes "numbered c s ''address'' []"
  shows "numbered (fst (render_layer3 h c if_type iface)) s ''address''
     (concat (map (\<lambda>subnet. address_value s (subnet_family h subnet) subnet)
        (iface_subnets iface)))"
proof -
  let ?c1 = "if if_type = ''bond'' \<and> iface_subnets iface = []
             then foldl (\<lambda>c family. set_ip_method c family None) c [''ipv4'', ''ipv6''] else c"
  from assms have "numbered ?c1 s ''address'' []"
    by (rule numbered_frame) (simp add: opt_set_ip_method_frame)
  then have "numbered (fst (?c1, [] :: string list, [] :: string list, None :: int option))
      s ''address'' []"
    by simp
  from numbered_address_foldl_render_subnet [OF this, of h "iface_subnets iface"]
  show ?thesis by (simp add: render_layer3_def Let_def)
qed

text \<open>
  Claim C9. An allocation takes the lowest unused index, counted from 1: the key returned
  for a prefix is unset, and every lower index from 1 on is in use. An allocation leaves
  every option that is set as it is, so no index is used twice. From a configuration
  without \<open>address<n>\<close> and \<open>route<n>\<close> keys in a family, every sequence of additions
  of addresses and routes, to this family and to the other in any order, leaves exactly
  the keys \<open>address1\<close>, ..., \<open>addressN\<close> for the \<open>N\<close> addresses added to the family, in
  the order of their addition, and likewise \<open>route1\<close>, ..., \<open>routeM\<close>; the loop over the
  subnets of an interface numbers the addresses of a family in the same way.
\<close>

theorem numbered_keys_contiguous:
  "(\<exists>n. snd (get_next_numbered_section c s p) = p @ str_nat n \<and> 1 \<le> n
        \<and> opt c s (p @ str_nat n) = None
        \<and> (\<forall>j. 1 \<le> j \<and> j < n \<longrightarrow> opt c s (p @ str_nat j) \<noteq> None))
   \<and> (opt c s' k \<noteq> None \<longrightarrow> opt (add_numbered c s p v) s' k = opt c s' k)
   \<and> (numbered c s ''address'' [] \<and> numbered c s ''route'' [] \<longrightarrow>
        numbered (foldl (apply_op h) c ops) s ''address'' (concat (map (op_addresses s) ops))
        \<and> numbered (foldl (apply_op h) c ops) s ''route'' (concat (map (op_routes h s) ops)))
   \<and> (numbered c s ''address'' [] \<longrightarrow>
        numbered (fst (render_layer3 h c if_type iface)) s ''address''
          (concat (map (\<lambda>subnet. address_value s (subnet_family h subnet) subnet)
             (iface_subnets iface))))"
proof (intro conjI impI)
  show "\<exists>n. snd (get_next_numbered_section c s p) = p @ str_nat n \<and> 1 \<le> n
      \<and> opt c s (p @ str_nat n) = None
      \<and> (\<forall>j. 1 \<le> j \<and> j < n \<longrightarrow> opt c s (p @ str_nat j) \<noteq> None)"
    using next_index_free [of c s p] next_index_ge [of c s p] next_index_lowest [of _ c s p]
    by (intro exI [of _ "next_index c s p"]) (simp add: get_next_numbered_section_eq)
next
  assume "opt c s' k \<noteq> None"
  with next_index_free [of c s p] show "opt (add_numbered c s p v) s' k = opt c s' k"
    by (auto simp: opt_add_numbered)
next
  assume a: "numbered c s ''address'' [] \<and> numbered c s ''route'' []"
  with numbered_foldl_apply_op [of c s "[]" "[]" h ops]
  show "numbered (foldl (apply_op h) c ops) s ''address'' (concat (map (op_addresses s) ops))"
    and "numbered (foldl (apply_op h) c ops) s ''route'' (concat (map (op_routes h s) ops))"
    by simp_all
next
  assume "numbered c s ''address'' []"
  then show "numbered (fst (render_layer3 h c if_type iface)) s ''address''
      (concat (map (\<lambda>subnet. address_value s (subnet_family h subnet) subnet)
         (iface_subnets iface)))"
    by (rule numbered_address_render_layer3)
qed

text \<open>Two IPv4 addresses, with a route of each family and an IPv6 address between them.\<close>

definition example_ops :: "numbered_op list" where
  "example_ops =
     [Add_address ''ipv4''
        ((example_subnet ''static'')\<lparr>subnet_address := Some ''10.0.0.1'', subnet_prefix := 24\<rparr>),
      Add_route \<lparr>route_network = ''2001:db8::'', route_prefix = 32,
                 route_gateway = Some ''fe80::1'', route_mtu = Some 1400\<rparr>,
      Add_address ''ipv6''
        ((example_subnet ''static6'')\<lparr>subnet_address := Some ''2001:db8::5'',
           subnet_prefix := 64\<rparr>),
      Add_route \<lparr>route_network = ''192.168.0.0'', route_prefix = 16,
                 route_gateway = None, route_mtu = None\<rparr>,
      Add_address ''ipv4''
        ((example_subnet ''static'')\<lparr>subnet_address := Some ''10.0.0.2'', subnet_prefix := 24\<rparr>)]"

theorem numbered_keys_contiguous_witness:
  "(\<exists>n. snd (get_next_numbered_section
               (add_numbered (NMConnection example_helpers ''eth0'') ''ipv4'' ''address'' ''10.0.0.1/24'')
               ''ipv4'' ''address'') = ''address'' @ str_nat n \<and> 1 \<le> n
        \<and> opt (add_numbered (NMConnection example_helpers ''eth0'') ''ipv4'' ''address'' ''10.0.0.1/24'')
             ''ipv4'' (''address'' @ str_nat n) = None)
   \<and> opt (NMConnection example_helpers ''eth0'') ''connection'' ''id'' \<noteq> None
   \<and> opt (add_numbered (NMConnection example_helpers ''eth0'') ''connection'' ''id'' ''x'')
        ''connection'' ''id'' = Some ''cloud-init eth0''
   \<and> numbered (NMConnection example_helpers ''eth0'') ''ipv4'' ''address'' []
   \<and> numbered (NMConnection example_helpers ''eth0'') ''ipv4'' ''route'' []
   \<and> numbered (foldl (apply_op example_helpers) (NMConnection example_helpers ''eth0'')
        example_ops) ''ipv4'' ''address'' [''10.0.0.1/24'', ''10.0.0.2/24'']
   \<and> numbered (foldl (apply_op example_helpers) (NMConnection example_helpers ''eth0'')
        example_ops) ''ipv4'' ''route'' [''192.168.0.0/16'']
   \<and> opt (foldl (apply_op example_helpers) (NMConnection example_helpers ''eth0'')
        example_ops) ''ipv4'' ''address1'' = Some ''10.0.0.1/24''
   \<and> opt (foldl (apply_op example_helpers) (NMConnection example_helpers ''eth0'')
        example_ops) ''ipv4'' ''address2'' = Some ''10.0.0.2/24''
   \<and> opt (foldl (apply_op example_helpers) (NMConnection example_helpers ''eth0'')
        example_ops) ''ipv4'' ''address3'' = None
   \<and> numbered (fst (render_layer3 example_helpers (NMConnection example_helpers ''eth0'')
          ''ethernet''
          (example_iface ''eth0'' ''physical''
             [(example_subnet ''static'')\<lparr>subnet_address := Some ''10.0.0.1'', subnet_prefix := 24\<rparr>,
              (example_subnet ''static6'')\<lparr>subnet_address := Some ''2001:db8::5'',
                 subnet_prefix := 64\<rparr>,
              (example_subnet ''static'')\<lparr>subnet_address := Some ''10.0.0.2'',
                 subnet_prefix := 24\<rparr>])))
        ''ipv4'' ''address'' [''10.0.0.1/24'', ''10.0.0.2/24'']"
proof -
  let ?c0 = "NMConnection example_helpers ''eth0''"
  let ?c1 = "add_numbered ?c0 ''ipv4'' ''address'' ''10.0.0.1/24''"
  let ?r = "foldl (apply_op example_helpers) ?c0 example_ops"
  let ?i = "example_iface ''eth0'' ''physical''
             [(example_subnet ''static'')\<lparr>subnet_address := Some ''10.0.0.1'', subnet_prefix := 24\<rparr>,
              (example_subnet ''static6'')\<lparr>subnet_address := Some ''2001:db8::5'',
                 subnet_prefix := 64\<rparr>,
              (example_subnet ''static'')\<lparr>subnet_address := Some ''10.0.0.2'',
                 subnet_prefix := 24\<rparr>]"
  have str: "str_nat (Suc 0) = ''1''" "str_nat 2 = ''2''" "str_nat 3 = ''3''" "str_int 24 = ''24''"
    "str_int 16 = ''16''"
    by (simp_all add: str_nat.simps str_int_def)
  have n0: "numbered ?c0 ''ipv4'' ''address'' []" "numbered ?c0 ''ipv4'' ''route'' []"
    by (simp_all add: numbered_def NMConnection_def opt_def)
  have id0: "opt ?c0 ''connection'' ''id'' \<noteq> None"
    by (simp add: NMConnection_def opt_def)
  have addrs: "concat (map (op_addresses ''ipv4'') example_ops) = [''10.0.0.1/24'', ''10.0.0.2/24'']"
    by (simp add: example_ops_def address_value_def example_subnet_def str)
  have routes: "concat (map (op_routes example_helpers ''ipv4'') example_ops) = [''192.168.0.0/16'']"
    by (simp add: example_ops_def route_family_def route_value_def example_helpers_def str)
  have subnets: "concat (map (\<lambda>subnet. address_value ''ipv4''
      (subnet_family example_helpers subnet) subnet) (iface_subnets ?i))
      = [''10.0.0.1/24'', ''10.0.0.2/24'']"
    by (simp add: example_defs address_value_def subnet_family_def example_helpers_def str)
  note at_c1 = numbered_keys_contiguous [of ?c1 "''ipv4''" "''address''"]
  note at_c0 = numbered_keys_contiguous
    [of ?c0 "''ipv4''" _ "''connection''" "''id''" "''x''" example_helpers example_ops
        "''ethernet''" ?i]
  from at_c1 have w1: "\<exists>n. snd (get_next_numbered_section ?c1 ''ipv4'' ''address'')
      = ''address'' @ str_nat n \<and> 1 \<le> n \<and> opt ?c1 ''ipv4'' (''address'' @ str_nat n) = None"
    by blast
  from numbered_keys_contiguous [of ?c0 "''connection''" "''id''" "''connection''" "''id''" "''x''"] id0
  have "opt (add_numbered ?c0 ''connection'' ''id'' ''x'') ''connection'' ''id''
      = opt ?c0 ''connection'' ''id''"
    by blast
  then have w2: "opt (add_numbered ?c0 ''connection'' ''id'' ''x'') ''connection'' ''id''
      = Some ''cloud-init eth0''"
    by (simp add: NMConnection_def opt_def)
  from at_c0 n0 have w3: "numbered ?r ''ipv4'' ''address'' [''10.0.0.1/24'', ''10.0.0.2/24'']"
    and w4: "numbered ?r ''ipv4'' ''route'' [''192.168.0.0/16'']"
    unfolding addrs routes by blast+
  from w3 have at_j: "opt ?r ''ipv4'' (''address'' @ str_nat j)
      = (if 1 \<le> j \<and> j \<le> 2 then Some ([''10.0.0.1/24'', ''10.0.0.2/24''] ! (j - 1)) else None)"
    for j
    by (simp add: numbered_def)
  from at_j [of 1] have w5: "opt ?r ''ipv4'' ''address1'' = Some ''10.0.0.1/24''"
    by (simp add: str)
  from at_j [of 2] have w6: "opt ?r ''ipv4'' ''address2'' = Some ''10.0.0.2/24''"
    by (simp add: str)
  from at_j [of 3] have w7: "opt ?r ''ipv4'' ''address3'' = None"
    by (simp add: str)
  from at_c0 n0(1) have w8: "numbered (fst (render_layer3 example_helpers ?c0 ''ethernet'' ?i))
      ''ipv4'' ''address'' [''10.0.0.1/24'', ''10.0.0.2/24'']"
    unfolding subnets by blast
  from w1 id0 w2 n0 w3 w4 w5 w6 w7 w8 show ?thesis by (intro conjI)
qed

subsection \<open>What each part of \<open>render_interface\<close> leaves unchanged\<close>


lemma type_map_None: "map_of type_map t = Some None \<longleftrightarrow> t = ''loopback''"
  by (auto simp: type_map_def split: if_splits)





lemma opt_render_connectivity_type:
  assumes "render_connectivity conns self c if_type iface = Inr c1"
    and "if_type \<noteq> ''connection''"
  shows "opt c1 ''connection'' ''type'' = Some if_type"
proof (cases "iface_bond_master iface")
  case None
  with assms show ?thesis
    by (auto simp: render_connectivity_def opt_set_section opt_set_option split: if_splits)
next
  case (Some m)
  with assms show ?thesis
    by (auto simp: render_connectivity_def Let_def opt_set_section opt_set_option
        has_section_set_option split: if_splits sum.splits)
qed

lemma opt_render_connectivity_if_type:
  assumes "render_connectivity conns self c if_type iface = Inr c1"
  shows "opt c1 if_type k = None"
proof (cases "iface_bond_master iface")
  case None
  with assms show ?thesis
    by (auto simp: render_connectivity_def opt_set_section split: if_splits)
next
  case (Some m)
  with assms show ?thesis
    by (auto simp: render_connectivity_def Let_def opt_set_section split: if_splits sum.splits)
qed

lemma has_section_render_connectivity:
  assumes "render_connectivity conns self c if_type iface = Inr c1"
  shows "has_section c1 s = (s = if_type \<or> has_section c s)" and "has_section c ''connection''"
proof -
  show "has_section c ''connection''"
    using assms by (auto simp: render_connectivity_def split: if_splits)
  show "has_section c1 s = (s = if_type \<or> has_section c s)"
  proof (cases "iface_bond_master iface")
    case None
    with assms show ?thesis
      by (auto simp: render_connectivity_def has_section_set_section has_section_set_option
          split: if_splits)
  next
    case (Some m)
    with assms show ?thesis
      by (auto simp: render_connectivity_def Let_def has_section_set_section
          has_section_set_option split: if_splits sum.splits)
  qed
qed



















lemma foldl_unchanged:
  "(\<And>c x. g (f c x) = g c) \<Longrightarrow> g (foldl f c l) = g c"
  by (induction l arbitrary: c) simp_all

lemma opt_render_props_section:
  "s \<noteq> if_type \<Longrightarrow> opt (render_props c if_type iface) s k = opt c s k"
  unfolding render_props_def
  by (rule foldl_unchanged [where g = "\<lambda>c. opt c s k"])
    (simp add: opt_set_option split: prod.splits option.splits prop_value.splits)


lemma opt_render_ethernet_section:
  "s \<noteq> ''ethernet'' \<Longrightarrow> opt (render_ethernet c if_type iface mtu) s k = opt c s k"
  by (simp add: render_ethernet_def Let_def opt_set_option split: option.splits)

lemma opt_render_ethernet_mtu:
  "has_section c ''ethernet'' \<Longrightarrow>
   opt (render_ethernet c ''ethernet'' iface (Some m)) ''ethernet'' ''mtu'' = Some (str_int m)"
  by (simp add: render_ethernet_def Let_def opt_set_option has_section_set_option
      split: option.splits)

lemma opt_render_ethernet_no_mtu:
  "opt (render_ethernet c if_type iface None) s ''mtu'' = opt c s ''mtu''"
  by (simp add: render_ethernet_def Let_def opt_set_option split: option.splits)



lemma has_section_render_vlan:
  "render_vlan conns self c if_type iface = Inr c' \<Longrightarrow> has_section c' s = has_section c s"
  by (auto simp: render_vlan_def opt_simps split: if_splits option.splits sum.splits)


lemma has_section_render_bond:
  "has_section (render_bond c if_type mtu) s =
     ((if_type = ''bond'' \<and> s = ''ethernet'' \<and> mtu \<noteq> None) \<or> has_section c s)"
  by (auto simp: render_bond_def Let_def opt_simps split: option.splits)


lemma has_section_render_infiniband:
  "has_section (render_infiniband c if_type iface mtu) s = has_section c s"
  by (auto simp: render_infiniband_def Let_def opt_simps split: option.splits)


lemma has_section_render_finish:
  "has_section (render_finish c if_type iface) s = has_section c s"
  by (auto simp: render_finish_def opt_simps)

subsection \<open>The store of profiles\<close>

lemma error_eq [simp]: "(e :: error) = KeyError"
  by (cases e) simp

lemma get_conn_eq: "get_conn conns x = Inr c \<longleftrightarrow> map_of conns x = Some c"
  by (simp add: get_conn_def split: option.splits)



lemma bridge_ports_dom:
  "bridge_ports self conns ports = Inr conns' \<Longrightarrow>
   (map_of conns' x = None) = (map_of conns x = None)"
proof (induction ports arbitrary: conns)
  case Nil
  then show ?case by simp
next
  case (Cons port ports)
  from Cons.prems obtain p s u where p: "map_of conns port = Some p"
    and rest: "bridge_ports self
        (AList.update port
           (set_default (set_default p ''connection'' ''slave-type'' ''bridge'')
              ''connection'' ''master'' u)
           (AList.update port (set_default p ''connection'' ''slave-type'' ''bridge'') conns))
        ports = Inr conns'"
    by (auto simp: get_conn_def Let_def split: option.splits sum.splits)
  from Cons.IH [OF rest] p show ?case by (auto simp: update_conv')
qed


lemma bridge_ports_frame:
  "bridge_ports self conns ports = Inr conns' \<Longrightarrow>
   s \<noteq> ''connection'' \<or> k \<notin> {''slave-type'', ''master''} \<Longrightarrow>
   map_option (\<lambda>c. opt c s k) (map_of conns' x) = map_option (\<lambda>c. opt c s k) (map_of conns x)"
proof (induction ports arbitrary: conns)
  case Nil
  then show ?case by simp
next
  case (Cons port ports)
  from Cons.prems(1) obtain p u where p: "map_of conns port = Some p"
    and rest: "bridge_ports self
        (AList.update port
           (set_default (set_default p ''connection'' ''slave-type'' ''bridge'')
              ''connection'' ''master'' u)
           (AList.update port (set_default p ''connection'' ''slave-type'' ''bridge'') conns))
        ports = Inr conns'"
    by (auto simp: get_conn_def Let_def split: option.splits sum.splits)
  from Cons.IH [OF rest Cons.prems(2)] p Cons.prems(2) show ?case
    by (auto simp: update_conv' opt_set_default)
qed

lemma render_bridge_dom:
  assumes "render_bridge conns self if_type iface = Inr conns'"
  shows "(map_of conns' x = None) = (map_of conns x = None)"
proof (cases "if_type = ''bridge''")
  case False
  with assms show ?thesis by (simp add: render_bridge_def)
next
  case True
  with assms obtain conns1 where ports:
      "bridge_ports self conns (iface_bridge_ports iface) = Inr conns1"
    by (auto simp: render_bridge_def split: sum.splits)
  from assms True ports bridge_ports_dom [OF ports, of x] bridge_ports_dom [OF ports, of self]
  show ?thesis
    by (auto simp: render_bridge_def get_conn_def update_conv'
        split: sum.splits option.splits if_splits)
qed



subsection \<open>The course of \<open>render_interface\<close>\<close>

text \<open>
  The part of \<open>render_interface\<close> between the type-specific section and the VLAN parent
  touches only the profile itself: layer 3, DNS, \<open>may-fail\<close>, the mapped properties and
  the Ethernet keys. \<open>render_own\<close> is the profile after it and \<open>render_mtu\<close> the MTU it
  resolves, both from the profile \<open>c1\<close> that \<open>render_connectivity\<close> returns.
\<close>

definition render_dns :: "helpers \<Rightarrow> config \<Rightarrow> string \<Rightarrow> iface \<Rightarrow> network_state \<Rightarrow> config" where
  "render_dns h c1 if_type iface ns =
     write_dns h (fst (render_layer3 h c1 if_type iface))
       (fst (found_dns iface ns (fst (snd (render_layer3 h c1 if_type iface)))
               (fst (snd (snd (render_layer3 h c1 if_type iface))))))
       (snd (found_dns iface ns (fst (snd (render_layer3 h c1 if_type iface)))
               (fst (snd (snd (render_layer3 h c1 if_type iface))))))"

definition render_mtu :: "helpers \<Rightarrow> config \<Rightarrow> string \<Rightarrow> iface \<Rightarrow> int option \<times> log_record list" where
  "render_mtu h c1 if_type iface =
     resolve_mtu iface (snd (snd (snd (render_layer3 h c1 if_type iface))))"

definition render_own :: "helpers \<Rightarrow> config \<Rightarrow> string \<Rightarrow> iface \<Rightarrow> network_state \<Rightarrow> config" where
  "render_own h c1 if_type iface ns =
     render_ethernet
       (render_props (set_mayfail_true_if_both_false_dhcp (render_dns h c1 if_type iface ns))
          if_type iface)
       if_type iface (fst (render_mtu h c1 if_type iface))"

lemma render_interface_unknown_type:
  "map_of type_map (iface_type iface) = None \<Longrightarrow>
   render_interface h self iface ns st = Inl KeyError"
  by (simp add: render_interface_def split: sum.splits)

lemma render_interface_loopback:
  "iface_type iface = ''loopback'' \<Longrightarrow> map_of (connections st) self = Some c \<Longrightarrow>
   render_interface h self iface ns st = Inr st"
  by (simp add: render_interface_def get_conn_def type_map_def)

lemma render_interface_Inr:
  assumes "render_interface h self iface ns st = Inr st'"
    and "iface_type iface \<noteq> ''loopback''"
  shows "\<exists>c0 if_type c1 c7 conns1 c9.
     map_of (connections st) self = Some c0
     \<and> map_of type_map (iface_type iface) = Some (Some if_type)
     \<and> render_connectivity (connections st) self c0 if_type iface = Inr c1
     \<and> render_vlan (connections st) self (render_own h c1 if_type iface ns) if_type iface = Inr c7
     \<and> render_bridge
           (AList.update self (render_bond c7 if_type (fst (render_mtu h c1 if_type iface)))
              (connections st))
           self if_type iface = Inr conns1
     \<and> map_of conns1 self = Some c9
     \<and> st' = st\<lparr>connections :=
                   AList.update self
                     (render_finish
                        (render_infiniband c9 if_type iface (fst (render_mtu h c1 if_type iface)))
                        if_type iface)
                     conns1,
                 logged := logged st @ snd (render_mtu h c1 if_type iface)\<rparr>"
proof -
  from assms(1) obtain c0 where c0: "map_of (connections st) self = Some c0"
    by (auto simp: render_interface_def get_conn_def split: option.splits)
  have "map_of type_map (iface_type iface) \<noteq> None"
    using assms(1) render_interface_unknown_type [of iface h self ns st] by auto
  moreover have "map_of type_map (iface_type iface) \<noteq> Some None"
    using assms(2) by (simp add: type_map_None)
  ultimately obtain if_type where t: "map_of type_map (iface_type iface) = Some (Some if_type)"
    by (cases "map_of type_map (iface_type iface)") auto
  from assms(1) c0 t obtain c1 where
    c1: "render_connectivity (connections st) self c0 if_type iface = Inr c1"
    by (cases "render_connectivity (connections st) self c0 if_type iface")
      (auto simp: render_interface_def get_conn_def)
  from assms(1) c0 t c1 obtain c7 where
    c7: "render_vlan (connections st) self (render_own h c1 if_type iface ns) if_type iface = Inr c7"
    by (cases "render_vlan (connections st) self (render_own h c1 if_type iface ns) if_type iface")
      (auto simp: render_interface_def get_conn_def render_own_def render_dns_def render_mtu_def
        split_beta Let_def)
  from assms(1) c0 t c1 c7 obtain conns1 where
    conns1: "render_bridge
           (AList.update self (render_bond c7 if_type (fst (render_mtu h c1 if_type iface)))
              (connections st))
           self if_type iface = Inr conns1"
    by (cases "render_bridge
           (AList.update self (render_bond c7 if_type (fst (render_mtu h c1 if_type iface)))
              (connections st))
           self if_type iface")
      (auto simp: render_interface_def get_conn_def render_own_def render_dns_def render_mtu_def
        split_beta Let_def)
  from assms(1) c0 t c1 c7 conns1 obtain c9 where c9: "map_of conns1 self = Some c9"
    by (cases "map_of conns1 self")
      (auto simp: render_interface_def get_conn_def render_own_def render_dns_def render_mtu_def
        split_beta Let_def)
  from assms(1) c0 t c1 c7 conns1 c9
  have "st' = st\<lparr>connections :=
                   AList.update self
                     (render_finish
                        (render_infiniband c9 if_type iface (fst (render_mtu h c1 if_type iface)))
                        if_type iface)
                     conns1,
                 logged := logged st @ snd (render_mtu h c1 if_type iface)\<rparr>"
    by (auto simp: render_interface_def get_conn_def render_own_def render_dns_def render_mtu_def
        split_beta Let_def)
  with c0 t c1 c7 conns1 c9 show ?thesis by blast
qed



lemma opt_render_own_family:
  "s \<in> {''ipv4'', ''ipv6''} \<Longrightarrow> if_type \<notin> {''ipv4'', ''ipv6''} \<Longrightarrow>
   opt (render_own h c1 if_type iface ns) s k
     = opt (set_mayfail_true_if_both_false_dhcp (render_dns h c1 if_type iface ns)) s k"
  by (auto simp: render_own_def opt_render_ethernet_section opt_render_props_section)

lemma render_interface_dom:
  assumes "render_interface h self iface ns st = Inr st'"
  shows "(map_of (connections st') x = None) = (map_of (connections st) x = None)"
proof (cases "iface_type iface = ''loopback''")
  case True
  from assms obtain c where "map_of (connections st) self = Some c"
    by (auto simp: render_interface_def get_conn_def split: option.splits)
  from render_interface_loopback [OF True this] assms show ?thesis by simp
next
  case False
  from render_interface_Inr [OF assms False] obtain c0 if_type c1 c7 conns1 c9 c11 mtu records
    where c0: "map_of (connections st) self = Some c0"
      and bridge: "render_bridge (AList.update self (render_bond c7 if_type mtu) (connections st))
        self if_type iface = Inr conns1"
      and st': "st' = st\<lparr>connections := AList.update self c11 conns1,
                 logged := logged st @ records\<rparr>"
    by blast
  from render_bridge_dom [OF bridge, of x] c0 st' show ?thesis
    by (auto simp: update_conv')
qed


lemma second_pass_dom:
  "second_pass h ns st ifaces = Inr st' \<Longrightarrow>
   (map_of (connections st') x = None) = (map_of (connections st) x = None)"
proof (induction ifaces arbitrary: st)
  case Nil
  then show ?case by simp
next
  case (Cons iface ifaces)
  from Cons.prems obtain st1 where
    st1: "render_interface h (conn_key iface) iface ns st = Inr st1"
    and rest: "second_pass h ns st1 ifaces = Inr st'"
    by (auto split: sum.splits)
  from Cons.IH [OF rest] render_interface_dom [OF st1, of x] show ?case by simp
qed


lemma second_pass_unknown_type:
  "iface \<in> set ifaces \<Longrightarrow> map_of type_map (iface_type iface) = None \<Longrightarrow>
   second_pass h ns st ifaces = Inl KeyError"
proof (induction ifaces arbitrary: st)
  case Nil
  then show ?case by simp
next
  case (Cons a ifaces)
  show ?case
  proof (cases "a = iface")
    case True
    with render_interface_unknown_type [OF Cons.prems(2), of h "conn_key iface" ns st]
    show ?thesis by simp
  next
    case False
    with Cons show ?thesis by (simp split: sum.splits)
  qed
qed

lemma map_of_first_pass:
  "map_of (first_pass h conns ifaces) k =
     (case filter (\<lambda>iface. conn_key iface = k) ifaces of
        [] \<Rightarrow> map_of conns k
      | i # is \<Rightarrow> Some (NMConnection h (iface_name (last (i # is)))))"
proof (induction ifaces arbitrary: conns rule: rev_induct)
  case Nil
  then show ?case by (simp add: first_pass_def)
next
  case (snoc iface ifaces)
  have "first_pass h conns (ifaces @ [iface])
      = AList.update (conn_key iface) (NMConnection h (iface_name iface))
          (first_pass h conns ifaces)"
    by (simp add: first_pass_def)
  with snoc [of conns] show ?case
    by (auto simp: update_conv' split: list.splits)
qed


subsection \<open>Profiles that a rendering does not own\<close>

lemma render_interface_other_frame:
  assumes "render_interface h self iface ns st = Inr st'"
    and "x \<noteq> self"
    and "s \<noteq> ''connection'' \<or> k \<notin> {''slave-type'', ''master''}"
  shows "map_option (\<lambda>c. opt c s k) (map_of (connections st') x)
     = map_option (\<lambda>c. opt c s k) (map_of (connections st) x)"
proof (cases "iface_type iface = ''loopback''")
  case True
  from assms obtain c where "map_of (connections st) self = Some c"
    by (auto simp: render_interface_def get_conn_def split: option.splits)
  from render_interface_loopback [OF True this] assms show ?thesis by simp
next
  case False
  from render_interface_Inr [OF assms(1) False] obtain if_type c8 conns1 c11 records
    where bridge: "render_bridge (AList.update self c8 (connections st)) self if_type iface
        = Inr conns1"
      and st': "st' = st\<lparr>connections := AList.update self c11 conns1,
                 logged := logged st @ records\<rparr>"
    by blast
  have "map_option (\<lambda>c. opt c s k) (map_of conns1 x)
      = map_option (\<lambda>c. opt c s k) (map_of (AList.update self c8 (connections st)) x)"
  proof (cases "if_type = ''bridge''")
    case False
    with bridge show ?thesis by (simp add: render_bridge_def)
  next
    case True
    with bridge obtain conns0 where ports:
        "bridge_ports self (AList.update self c8 (connections st)) (iface_bridge_ports iface)
           = Inr conns0"
      by (auto simp: render_bridge_def split: sum.splits)
    from bridge True ports assms(2) bridge_ports_frame [OF ports assms(3), of x]
    show ?thesis
      by (auto simp: render_bridge_def get_conn_def update_conv' split: sum.splits option.splits)
  qed
  with assms(2) st' show ?thesis by (simp add: update_conv')
qed

lemma bridge_ports_distinct:
  "bridge_ports self conns ports = Inr conns' \<Longrightarrow> distinct (map fst conns) \<Longrightarrow>
   distinct (map fst conns')"
proof (induction ports arbitrary: conns)
  case Nil
  then show ?case by simp
next
  case (Cons port ports)
  from Cons.prems(1) obtain p u where
    rest: "bridge_ports self
        (AList.update port
           (set_default (set_default p ''connection'' ''slave-type'' ''bridge'')
              ''connection'' ''master'' u)
           (AList.update port (set_default p ''connection'' ''slave-type'' ''bridge'') conns))
        ports = Inr conns'"
    by (auto simp: get_conn_def Let_def split: option.splits sum.splits)
  from Cons.IH [OF rest] Cons.prems(2) show ?case by (simp add: distinct_update)
qed

lemma render_interface_distinct:
  assumes "render_interface h self iface ns st = Inr st'"
    and "distinct (map fst (connections st))"
  shows "distinct (map fst (connections st'))"
proof (cases "iface_type iface = ''loopback''")
  case True
  from assms obtain c where "map_of (connections st) self = Some c"
    by (auto simp: render_interface_def get_conn_def split: option.splits)
  from render_interface_loopback [OF True this] assms show ?thesis by simp
next
  case False
  from render_interface_Inr [OF assms(1) False] obtain if_type c8 conns1 c11 records
    where bridge: "render_bridge (AList.update self c8 (connections st)) self if_type iface
        = Inr conns1"
      and st': "st' = st\<lparr>connections := AList.update self c11 conns1,
                 logged := logged st @ records\<rparr>"
    by blast
  have "distinct (map fst conns1)"
  proof (cases "if_type = ''bridge''")
    case False
    with bridge assms(2) show ?thesis by (auto simp: render_bridge_def distinct_update)
  next
    case True
    with bridge obtain conns0 where ports:
        "bridge_ports self (AList.update self c8 (connections st)) (iface_bridge_ports iface)
           = Inr conns0"
      by (auto simp: render_bridge_def split: sum.splits)
    from bridge_ports_distinct [OF ports] assms(2) have "distinct (map fst conns0)"
      by (simp add: distinct_update)
    with bridge True ports show ?thesis
      by (auto simp: render_bridge_def distinct_update split: sum.splits option.splits)
  qed
  with st' show ?thesis by (simp add: distinct_update)
qed

lemma second_pass_distinct:
  "second_pass h ns st ifaces = Inr st' \<Longrightarrow> distinct (map fst (connections st)) \<Longrightarrow>
   distinct (map fst (connections st'))"
proof (induction ifaces arbitrary: st)
  case Nil
  then show ?case by simp
next
  case (Cons iface ifaces)
  from Cons.prems(1) obtain st1 where
    st1: "render_interface h (conn_key iface) iface ns st = Inr st1"
    and rest: "second_pass h ns st1 ifaces = Inr st'"
    by (auto split: sum.splits)
  from Cons.IH [OF rest render_interface_distinct [OF st1 Cons.prems(2)]] show ?case .
qed

lemma first_pass_distinct:
  "distinct (map fst conns) \<Longrightarrow> distinct (map fst (first_pass h conns ifaces))"
  unfolding first_pass_def
  by (induction ifaces arbitrary: conns) (simp_all add: distinct_update)

lemma second_pass_logged_written:
  "second_pass h ns st ifaces = Inr st' \<Longrightarrow> written st' = written st"
proof (induction ifaces arbitrary: st)
  case Nil
  then show ?case by simp
next
  case (Cons iface ifaces)
  from Cons.prems(1) obtain st1 where
    st1: "render_interface h (conn_key iface) iface ns st = Inr st1"
    and rest: "second_pass h ns st1 ifaces = Inr st'"
    by (auto split: sum.splits)
  have "written st1 = written st"
  proof (cases "iface_type iface = ''loopback''")
    case True
    from st1 obtain c where "map_of (connections st) (conn_key iface) = Some c"
      by (auto simp: render_interface_def get_conn_def split: option.splits)
    from render_interface_loopback [OF True this] st1 show ?thesis by simp
  next
    case False
    from render_interface_Inr [OF st1 False] show ?thesis by auto
  qed
  with Cons.IH [OF rest] show ?case by simp
qed

text \<open>A profile whose interfaces are all of type \<open>loopback\<close> keeps the
  \<open>connection.type\<close> it had.\<close>

lemma second_pass_loopback_type:
  "second_pass h ns st ifaces = Inr st' \<Longrightarrow>
   \<forall>i\<in>set ifaces. conn_key i = x \<longrightarrow> iface_type i = ''loopback'' \<Longrightarrow>
   map_option (\<lambda>c. opt c ''connection'' ''type'') (map_of (connections st') x)
     = map_option (\<lambda>c. opt c ''connection'' ''type'') (map_of (connections st) x)"
proof (induction ifaces arbitrary: st)
  case Nil
  then show ?case by simp
next
  case (Cons iface ifaces)
  from Cons.prems(1) obtain st1 where
    st1: "render_interface h (conn_key iface) iface ns st = Inr st1"
    and rest: "second_pass h ns st1 ifaces = Inr st'"
    by (auto split: sum.splits)
  have "map_option (\<lambda>c. opt c ''connection'' ''type'') (map_of (connections st1) x)
      = map_option (\<lambda>c. opt c ''connection'' ''type'') (map_of (connections st) x)"
  proof (cases "conn_key iface = x")
    case True
    with Cons.prems(2) have loop: "iface_type iface = ''loopback''" by simp
    from st1 obtain c where "map_of (connections st) (conn_key iface) = Some c"
      by (auto simp: render_interface_def get_conn_def split: option.splits)
    from render_interface_loopback [OF loop this] st1 show ?thesis by simp
  next
    case False
    then have "x \<noteq> conn_key iface" by auto
    from render_interface_other_frame [OF st1 this] show ?thesis by simp
  qed
  with Cons.IH [OF rest] Cons.prems(2) show ?case by simp
qed

subsection \<open>Rendering without a bridge\<close>






subsection \<open>Interfaces without a connection type\<close>

lemma valid_opt: "valid c = (opt c ''connection'' ''type'' \<noteq> None)"
  by (simp add: valid_def has_option_opt)

lemma NMConnection_not_valid: "\<not> valid (NMConnection h name)"
  by (simp add: valid_opt NMConnection_def opt_def)

lemma nm_conn_filename_inj:
  "nm_conn_filename h x target = nm_conn_filename h y target \<Longrightarrow> x = y"
  by (simp add: nm_conn_filename_def)

lemma nm_conn_filename_not_conf:
  "nm_conn_filename h x target \<noteq> cloud_init_nm_conf_filename h target"
  by (simp add: nm_conn_filename_def cloud_init_nm_conf_filename_def)

lemma write_files_invalid:
  assumes "distinct (map fst (connections st))"
    and "map_of (connections st) x = Some c" and "\<not> valid c"
    and "(p, content, mode) \<in> set (written (write_files h target st))"
    and "(p, content, mode) \<notin> set (written st)"
  shows "p \<noteq> nm_conn_filename h x target"
proof
  assume p: "p = nm_conn_filename h x target"
  from assms(4,5) p nm_conn_filename_not_conf [of h x target]
  obtain y d where "(y, d) \<in> set (connections st)" and "valid d"
    and "nm_conn_filename h x target = nm_conn_filename h y target"
    by (auto simp: write_files_def)
  with nm_conn_filename_inj [of h x target y] have "(x, d) \<in> set (connections st)" by simp
  with assms(1) have "map_of (connections st) x = Some d" by simp
  with assms(2,3) \<open>valid d\<close> show False by simp
qed

lemma render_network_state_unknown_type:
  "iface \<in> set (iter_interfaces ns) \<Longrightarrow> map_of type_map (iface_type iface) = None \<Longrightarrow>
   render_network_state h ns target st = Inl KeyError"
  by (simp add: render_network_state_def second_pass_unknown_type)

lemma render_network_state_loopback:
  assumes "render_network_state h ns target Renderer = Inr st'"
    and "iface \<in> set (iter_interfaces ns)"
    and "\<forall>i\<in>set (iter_interfaces ns). conn_key i = conn_key iface \<longrightarrow> iface_type i = ''loopback''"
  shows "\<exists>c. map_of (connections st') (conn_key iface) = Some c
           \<and> opt c ''connection'' ''type'' = None \<and> \<not> valid c"
    and "(p, content, mode) \<in> set (written st') \<Longrightarrow> p \<noteq> nm_conn_filename h (conn_key iface) target"
proof -
  let ?st1 = "Renderer\<lparr>connections := first_pass h (connections Renderer) (iter_interfaces ns)\<rparr>"
  from assms(1) obtain st2 where pass: "second_pass h ns ?st1 (iter_interfaces ns) = Inr st2"
    and st': "st' = write_files h target st2"
    by (auto simp: render_network_state_def Let_def split: sum.splits)
  from assms(2) have "filter (\<lambda>i. conn_key i = conn_key iface) (iter_interfaces ns) \<noteq> []"
    by (auto simp: filter_empty_conv)
  then obtain name where first: "map_of (connections ?st1) (conn_key iface)
      = Some (NMConnection h name)"
    by (cases "filter (\<lambda>i. conn_key i = conn_key iface) (iter_interfaces ns)")
      (auto simp: map_of_first_pass)
  from second_pass_loopback_type [OF pass assms(3)] first
  obtain c where c: "map_of (connections st2) (conn_key iface) = Some c"
    and ty: "opt c ''connection'' ''type'' = None"
    by (auto simp: NMConnection_def opt_def)
  from ty have invalid: "\<not> valid c" by (simp add: valid_opt)
  from c ty invalid st' show "\<exists>c. map_of (connections st') (conn_key iface) = Some c
      \<and> opt c ''connection'' ''type'' = None \<and> \<not> valid c"
    by (simp add: write_files_def)
  have d: "distinct (map fst (connections st2))"
    by (rule second_pass_distinct [OF pass]) (simp add: first_pass_distinct Renderer_def)
  have w: "written st2 = []"
    using second_pass_logged_written [OF pass] by (simp add: Renderer_def)
  assume "(p, content, mode) \<in> set (written st')"
  with write_files_invalid [OF d c invalid, of p content mode h target] st' w
  show "p \<noteq> nm_conn_filename h (conn_key iface) target" by simp
qed

text \<open>
  Claim C4. An interface of type \<open>loopback\<close> is rendered without any change to the
  renderer and without an error; the profile that the first pass creates has no
  \<open>connection.type\<close>, and when every interface of its connection key is of type
  \<open>loopback\<close>, a render that succeeds leaves the profile without \<open>connection.type\<close> and
  writes no file for it. An interface whose type is not a key of the type map makes
  \<open>render_interface\<close> raise \<^verbatim>\<open>KeyError\<close>, which ends \<open>render_network_state\<close> before
  any file is written.
\<close>

theorem unmappable_type_rendering:
  "(iface_type iface = ''loopback'' \<and> map_of (connections st) self = Some c \<longrightarrow>
      render_interface h self iface ns st = Inr st)
   \<and> opt (NMConnection h name) ''connection'' ''type'' = None
   \<and> \<not> valid (NMConnection h name)
   \<and> (render_network_state h ns target Renderer = Inr st'
        \<and> iface \<in> set (iter_interfaces ns)
        \<and> (\<forall>i\<in>set (iter_interfaces ns).
              conn_key i = conn_key iface \<longrightarrow> iface_type i = ''loopback'') \<longrightarrow>
      (\<exists>c. map_of (connections st') (conn_key iface) = Some c
            \<and> opt c ''connection'' ''type'' = None \<and> \<not> valid c)
      \<and> (\<forall>p content mode. (p, content, mode) \<in> set (written st') \<longrightarrow>
            p \<noteq> nm_conn_filename h (conn_key iface) target))
   \<and> (map_of type_map (iface_type iface) = None \<longrightarrow>
      render_interface h self iface ns st = Inl KeyError)
   \<and> (iface \<in> set (iter_interfaces ns) \<and> map_of type_map (iface_type iface) = None \<longrightarrow>
      render_network_state h ns target st = Inl KeyError)"
proof (intro conjI impI allI)
  assume "iface_type iface = ''loopback'' \<and> map_of (connections st) self = Some c"
  then show "render_interface h self iface ns st = Inr st"
    by (simp add: render_interface_loopback)
next
  show "opt (NMConnection h name) ''connection'' ''type'' = None"
    by (simp add: NMConnection_def opt_def)
next
  show "\<not> valid (NMConnection h name)" by (rule NMConnection_not_valid)
next
  assume a: "render_network_state h ns target Renderer = Inr st'
    \<and> iface \<in> set (iter_interfaces ns)
    \<and> (\<forall>i\<in>set (iter_interfaces ns).
          conn_key i = conn_key iface \<longrightarrow> iface_type i = ''loopback'')"
  then show "\<exists>c. map_of (connections st') (conn_key iface) = Some c
      \<and> opt c ''connection'' ''type'' = None \<and> \<not> valid c"
    by (intro render_network_state_loopback(1) [of h ns target st' iface]) simp_all
  fix p content mode
  assume "(p, content, mode) \<in> set (written st')"
  with a show "p \<noteq> nm_conn_filename h (conn_key iface) target"
    by (intro render_network_state_loopback(2) [of h ns target st' iface p content mode])
      simp_all
next
  assume "map_of type_map (iface_type iface) = None"
  then show "render_interface h self iface ns st = Inl KeyError"
    by (rule render_interface_unknown_type)
next
  assume "iface \<in> set (iter_interfaces ns) \<and> map_of type_map (iface_type iface) = None"
  then show "render_network_state h ns target st = Inl KeyError"
    using render_network_state_unknown_type by blast
qed

theorem unmappable_type_rendering_witness:
  "iface_type (example_iface ''lo'' ''loopback'' []) = ''loopback''
   \<and> map_of (connections (Renderer\<lparr>connections := [(''lo'', NMConnection example_helpers ''lo'')]\<rparr>))
        ''lo'' = Some (NMConnection example_helpers ''lo'')
   \<and> render_interface example_helpers ''lo'' (example_iface ''lo'' ''loopback'' [])
        (example_state [example_iface ''lo'' ''loopback'' []])
        (Renderer\<lparr>connections := [(''lo'', NMConnection example_helpers ''lo'')]\<rparr>)
      = Inr (Renderer\<lparr>connections := [(''lo'', NMConnection example_helpers ''lo'')]\<rparr>)
   \<and> (\<exists>st'. render_network_state example_helpers
                (example_state [example_iface ''lo'' ''loopback'' [],
                                example_iface ''eth0'' ''physical'' [example_subnet ''dhcp'']])
                None Renderer = Inr st'
          \<and> (\<exists>c. map_of (connections st') ''lo'' = Some c
                \<and> opt c ''connection'' ''type'' = None \<and> \<not> valid c)
          \<and> nm_conn_filename example_helpers ''lo'' None \<notin> fst ` set (written st'))
   \<and> map_of type_map (iface_type (example_iface ''wlan0'' ''wifi'' [])) = None
   \<and> render_interface example_helpers ''wlan0'' (example_iface ''wlan0'' ''wifi'' [])
        (example_state [example_iface ''wlan0'' ''wifi'' []])
        (Renderer\<lparr>connections := [(''wlan0'', NMConnection example_helpers ''wlan0'')]\<rparr>)
      = Inl KeyError
   \<and> render_network_state example_helpers
        (example_state [example_iface ''eth0'' ''physical'' [example_subnet ''dhcp''],
                        example_iface ''wlan0'' ''wifi'' []])
        None Renderer = Inl KeyError"
proof -
  let ?lo = "example_iface ''lo'' ''loopback'' []"
  let ?eth0 = "example_iface ''eth0'' ''physical'' [example_subnet ''dhcp'']"
  let ?wlan0 = "example_iface ''wlan0'' ''wifi'' []"
  let ?st = "Renderer\<lparr>connections := [(''lo'', NMConnection example_helpers ''lo'')]\<rparr>"
  let ?ns = "example_state [?lo, ?eth0]"
  have lo: "iface_type ?lo = ''loopback''" "conn_key ?lo = ''lo''" "conn_key ?eth0 = ''eth0''"
    "iface_type ?wlan0 = ''wifi''" "iter_interfaces ?ns = [?lo, ?eth0]"
    "iter_interfaces (example_state [?eth0, ?wlan0]) = [?eth0, ?wlan0]"
    by (simp_all add: example_defs conn_key_def)
  have st: "map_of (connections ?st) ''lo'' = Some (NMConnection example_helpers ''lo'')"
    by simp
  have wifi: "map_of type_map (iface_type ?wlan0) = None"
    by (simp add: lo type_map_def)
  have ok: "\<exists>st'. render_network_state example_helpers ?ns None Renderer = Inr st'"
    by (simp add: render_network_state_def write_files_def config_defs connection_defs
        renderer_defs example_defs cong: weak_congs)
  then obtain st' where st': "render_network_state example_helpers ?ns None Renderer = Inr st'"
    by blast
  have only: "\<forall>i\<in>set (iter_interfaces ?ns). conn_key i = conn_key ?lo \<longrightarrow> iface_type i = ''loopback''"
    by (simp add: lo)
  have mem: "?lo \<in> set (iter_interfaces ?ns)" by (simp add: lo)
  note at_lo = unmappable_type_rendering
    [of ?lo ?st "''lo''" "NMConnection example_helpers ''lo''" example_helpers
        "example_state [?lo]" "''lo''" None]
  from at_lo lo(1) st have w1: "render_interface example_helpers ''lo'' ?lo (example_state [?lo]) ?st
      = Inr ?st"
    by blast
  from unmappable_type_rendering [of ?lo _ _ _ example_helpers ?ns _ None st'] st' mem only
  have w2: "\<exists>c. map_of (connections st') (conn_key ?lo) = Some c
      \<and> opt c ''connection'' ''type'' = None \<and> \<not> valid c"
    and w3: "\<forall>p content mode. (p, content, mode) \<in> set (written st') \<longrightarrow>
      p \<noteq> nm_conn_filename example_helpers (conn_key ?lo) None"
    by blast+
  from w3 have w3': "nm_conn_filename example_helpers ''lo'' None \<notin> fst ` set (written st')"
    unfolding lo by force
  from st' w2 w3' have w4: "\<exists>st'. render_network_state example_helpers ?ns None Renderer = Inr st'
      \<and> (\<exists>c. map_of (connections st') ''lo'' = Some c
            \<and> opt c ''connection'' ''type'' = None \<and> \<not> valid c)
      \<and> nm_conn_filename example_helpers ''lo'' None \<notin> fst ` set (written st')"
    by (auto simp: lo)
  note at_wifi = unmappable_type_rendering
    [of ?wlan0 "Renderer\<lparr>connections := [(''wlan0'', NMConnection example_helpers ''wlan0'')]\<rparr>"
        "''wlan0''" _ example_helpers "example_state [?wlan0]"]
  from at_wifi wifi have w5: "render_interface example_helpers ''wlan0'' ?wlan0
      (example_state [?wlan0])
      (Renderer\<lparr>connections := [(''wlan0'', NMConnection example_helpers ''wlan0'')]\<rparr>)
      = Inl KeyError"
    by blast
  have "?wlan0 \<in> set (iter_interfaces (example_state [?eth0, ?wlan0]))" by (simp add: lo)
  with unmappable_type_rendering
    [of ?wlan0 Renderer _ _ example_helpers "example_state [?eth0, ?wlan0]" _ None] wifi
  have w6: "render_network_state example_helpers (example_state [?eth0, ?wlan0]) None Renderer
      = Inl KeyError"
    by blast
  from lo(1) st w1 w4 wifi w5 w6 show ?thesis by (intro conjI)
qed

text \<open>
  Against the claim as stated ("any unknown type string ... no error is raised"): the
  type \<open>wifi\<close> is not a key of the type map, the lookup raises \<^verbatim>\<open>KeyError\<close>, and
  the render of a topology that holds such an interface ends with the exception, also
  when the interface comes after one that renders.
\<close>

theorem unknown_type_raises:
  "render_network_state example_helpers
     (example_state [example_iface ''wlan0'' ''wifi'' []]) None Renderer = Inl KeyError
   \<and> render_network_state example_helpers
       (example_state [example_iface ''eth0'' ''physical'' [example_subnet ''dhcp''],
                       example_iface ''wlan0'' ''wifi'' []])
       None Renderer = Inl KeyError"
  by (simp add: render_network_state_def config_defs connection_defs renderer_defs
      example_defs cong: weak_congs)

subsection \<open>The identity token of a profile\<close>






subsection \<open>References to profiles that do not exist\<close>












end
